theory Spec2Isabelle
  imports Complex_Main "HOL-Library.Sublist"
begin

section \<open>JavaScript values\<close>

text \<open>
  The functions of \<^verbatim>\<open>services/webhook.ts\<close> and of the Gemini service take and return values
  typed \<^verbatim>\<open>any\<close>: parsed JSON, rejected promise values, error objects. They are modelled by
  one datatype. A number is a rational (every finite double is one; \<^verbatim>\<open>NaN\<close> and the
  infinities are left out), a string is a list of 8-bit code units, an object is the list
  of its own properties in insertion order and a property is read from the first entry
  with its name.
\<close>

datatype jsval =
    JUndefined
  | JNull
  | JBool bool
  | JNum rat
  | JStr string
  | JArr "jsval list"
  | JObj "(string \<times> jsval) list"

text \<open>
  What the engine itself throws, and what \<^verbatim>\<open>new Error(msg)\<close> builds: an error object with
  a message. The messages of the type errors are those of V8.
\<close>

datatype exn = TypeError string | SyntaxError string | Error string

fun message :: "exn \<Rightarrow> string" where
  "message (TypeError m) = m"
| "message (SyntaxError m) = m"
| "message (Error m) = m"

fun exn_name :: "exn \<Rightarrow> string" where
  "exn_name (TypeError m) = ''TypeError''"
| "exn_name (SyntaxError m) = ''SyntaxError''"
| "exn_name (Error m) = ''Error''"

text \<open>The error object as a value, for the code that catches it and reads its fields.\<close>

definition exn_val :: "exn \<Rightarrow> jsval" where
  "exn_val e = JObj [(''name'', JStr (exn_name e)), (''message'', JStr (message e))]"

text \<open>\<^verbatim>\<open>Boolean(v)\<close>, the test of \<^verbatim>\<open>if (v)\<close>, \<^verbatim>\<open>!v\<close>, \<^verbatim>\<open>v || w\<close> and \<^verbatim>\<open>v && w\<close>.\<close>

fun truthy :: "jsval \<Rightarrow> bool" where
  "truthy JUndefined = False"
| "truthy JNull = False"
| "truthy (JBool b) = b"
| "truthy (JNum n) = (n \<noteq> 0)"
| "truthy (JStr s) = (s \<noteq> [])"
| "truthy (JArr xs) = True"
| "truthy (JObj fs) = True"

definition js_or :: "jsval \<Rightarrow> jsval \<Rightarrow> jsval" where
  "js_or a b = (if truthy a then a else b)"

fun nullish :: "jsval \<Rightarrow> bool" where
  "nullish JUndefined = True"
| "nullish JNull = True"
| "nullish v = False"

text \<open>
  \<^verbatim>\<open>v.k\<close> for a value that is neither \<^verbatim>\<open>null\<close> nor \<^verbatim>\<open>undefined\<close>, and for the property
  names this code reads (\<^verbatim>\<open>status\<close>, \<^verbatim>\<open>code\<close>, \<^verbatim>\<open>message\<close>, \<^verbatim>\<open>keyword\<close>, ...): none of them
  is a property of the prototypes of strings, numbers, booleans or arrays, so only an
  object can have them.
\<close>

fun get_prop :: "jsval \<Rightarrow> string \<Rightarrow> jsval" where
  "get_prop (JObj fs) k = (case map_of fs k of Some v \<Rightarrow> v | None \<Rightarrow> JUndefined)"
| "get_prop v k = JUndefined"

text \<open>\<^verbatim>\<open>v.k\<close> in general: reading a property of \<^verbatim>\<open>null\<close> or \<^verbatim>\<open>undefined\<close> throws.\<close>

definition quoted :: "string \<Rightarrow> string" where
  "quoted k = [CHR 0x27] @ k @ [CHR 0x27]"

definition cannot_read :: "jsval \<Rightarrow> string \<Rightarrow> exn" where
  "cannot_read v k =
     TypeError (''Cannot read properties of '' @ (if v = JNull then ''null'' else ''undefined'')
                @ '' (reading '' @ quoted k @ '')'')"

definition getp :: "jsval \<Rightarrow> string \<Rightarrow> exn + jsval" where
  "getp v k = (if nullish v then Inl (cannot_read v k) else Inr (get_prop v k))"

text \<open>\<^verbatim>\<open>v?.k\<close>\<close>

definition opt_prop :: "jsval \<Rightarrow> string \<Rightarrow> jsval" where
  "opt_prop v k = (if nullish v then JUndefined else get_prop v k)"

fun isArray :: "jsval \<Rightarrow> bool" where
  "isArray (JArr xs) = True"
| "isArray v = False"

subsection \<open>Strings\<close>

text \<open>\<^verbatim>\<open>s.includes(p)\<close> on strings: \<open>p\<close> occurs in \<open>s\<close> as a contiguous run.\<close>

fun includes_str :: "string \<Rightarrow> string \<Rightarrow> bool" where
  "includes_str [] p = (p = [])"
| "includes_str (c # cs) p = (prefix p (c # cs) \<or> includes_str cs p)"

text \<open>
  \<^verbatim>\<open>v.includes(p)\<close> for a truthy \<open>v\<close> and a string \<open>p\<close>: the substring test on a string,
  the membership test on an array, and a type error on everything else, which has no
  such method.
\<close>

fun js_includes :: "string \<Rightarrow> jsval \<Rightarrow> string \<Rightarrow> exn + bool" where
  "js_includes what (JStr s) p = Inr (includes_str s p)"
| "js_includes what (JArr xs) p = Inr (JStr p \<in> set xs)"
| "js_includes what v p = Inl (TypeError (what @ ''.includes is not a function''))"

section \<open>The error classifier\<close>

text \<open>
  \<^verbatim>\<open>isQuotaError\<close>. The log line is left out. \<^verbatim>\<open>status\<close> is \<^verbatim>\<open>error.status || error.code\<close>;
  the five comparisons are strict equalities; the message is examined only when none of
  them holds, and only when it is truthy. The value returned is the value of the
  \<^verbatim>\<open>||\<close>/\<^verbatim>\<open>&&\<close> chain: \<^verbatim>\<open>true\<close>, \<^verbatim>\<open>false\<close>, or the falsy message itself.
\<close>

definition quota_substrings :: "string list" where
  "quota_substrings =
     [''429'', ''quota'', ''RESOURCE_EXHAUSTED'', ''Too Many Requests'',
      ''Rpc failed'', ''xhr error'', ''500'', ''overloaded'']"

fun includes_any :: "jsval \<Rightarrow> string list \<Rightarrow> exn + bool" where
  "includes_any m [] = Inr False"
| "includes_any m (p # ps) =
     (case js_includes ''error.message'' m p of
        Inl e \<Rightarrow> Inl e
      | Inr True \<Rightarrow> Inr True
      | Inr False \<Rightarrow> includes_any m ps)"

definition isQuotaError :: "jsval \<Rightarrow> exn + jsval" where
  "isQuotaError error =
     (case getp error ''status'' of
        Inl e \<Rightarrow> Inl e
      | Inr st \<Rightarrow>
          let status = (if truthy st then st else get_prop error ''code'') in
          if status = JNum 429 \<or> status = JNum 503 \<or> status = JNum 500
             \<or> status = JStr ''RESOURCE_EXHAUSTED'' \<or> status = JStr ''PERMISSION_DENIED''
          then Inr (JBool True)
          else
            let m = get_prop error ''message'' in
            if \<not> truthy m then Inr m
            else (case includes_any m quota_substrings of
                    Inl e \<Rightarrow> Inl e
                  | Inr b \<Rightarrow> Inr (JBool b)))"

text \<open>
  The callers use the result as a condition (\<^verbatim>\<open>retries > 0 && isQuotaError(error)\<close>,
  \<^verbatim>\<open>if (isQuotaError(error))\<close>): a truthy result is the classification Transient, a falsy
  one Fatal.
\<close>

datatype kind = Transient | Fatal

definition classify :: "jsval \<Rightarrow> exn + kind" where
  "classify error =
     (case isQuotaError error of
        Inl e \<Rightarrow> Inl e
      | Inr q \<Rightarrow> Inr (if truthy q then Transient else Fatal))"

section \<open>Retry with exponential backoff\<close>

text \<open>
  A task is an asynchronous function: called in a state of the world, it rejects with a
  value (\<open>Inl\<close>) or resolves with one (\<open>Inr\<close>) and leaves a new state. A run of
  \<^verbatim>\<open>withRetry\<close> or \<^verbatim>\<open>withModelFallback\<close> has an outcome, the delays it passed to
  \<^verbatim>\<open>setTimeout\<close> and awaited, in order, and the state it left.

  \<^verbatim>\<open>withRetry\<close>: the recursion of the source, on the number of retries left. The retry
  count and the delay in milliseconds are integers; the delay is the number handed to
  \<^verbatim>\<open>setTimeout\<close>. An error that \<^verbatim>\<open>isQuotaError\<close> throws inside the \<^verbatim>\<open>catch\<close> block replaces the
  failure of the task.
\<close>

record ('a, 's) run =
  outcome :: "jsval + 'a"
  delays :: "int list"
  final :: 's

function withRetry ::
  "('s \<Rightarrow> (jsval + 'a) \<times> 's) \<Rightarrow> int \<Rightarrow> int \<Rightarrow> 's \<Rightarrow> ('a, 's) run" where
  "withRetry fn retries baseDelay s =
     (case fn s of
        (Inr v, s1) \<Rightarrow> \<lparr>outcome = Inr v, delays = [], final = s1\<rparr>
      | (Inl error, s1) \<Rightarrow>
          if retries > 0 then
            (case isQuotaError error of
               Inl te \<Rightarrow> \<lparr>outcome = Inl (exn_val te), delays = [], final = s1\<rparr>
             | Inr q \<Rightarrow>
                 if truthy q then
                   (let r = withRetry fn (retries - 1) (baseDelay * 2) s1
                    in r\<lparr>delays := baseDelay # delays r\<rparr>)
                 else \<lparr>outcome = Inl error, delays = [], final = s1\<rparr>)
          else \<lparr>outcome = Inl error, delays = [], final = s1\<rparr>)"
  by pat_completeness auto
termination
  by (relation "measure (\<lambda>(fn, retries, baseDelay, s). nat retries)") auto

section \<open>Model fallback\<close>

text \<open>
  \<^verbatim>\<open>withModelFallback\<close>: the default value of the parameter \<^verbatim>\<open>fallbackFn\<close> is
  \<^verbatim>\<open>primaryFn\<close>; an omitted argument is \<open>None\<close>.
\<close>

definition PRIMARY_MODEL :: string where "PRIMARY_MODEL = ''gemini-3-pro-preview''"
definition FALLBACK_MODEL :: string where "FALLBACK_MODEL = ''gemini-2.5-flash''"

definition withModelFallback ::
  "(string \<Rightarrow> 's \<Rightarrow> (jsval + 'a) \<times> 's) \<Rightarrow> (string \<Rightarrow> 's \<Rightarrow> (jsval + 'a) \<times> 's) option
   \<Rightarrow> 's \<Rightarrow> ('a, 's) run" where
  "withModelFallback primaryFn fallbackArg s =
     (let fallbackFn = (case fallbackArg of None \<Rightarrow> primaryFn | Some f \<Rightarrow> f);
          p = withRetry (primaryFn PRIMARY_MODEL) 1 1000 s
      in case outcome p of
           Inr v \<Rightarrow> p
         | Inl error \<Rightarrow>
             (case isQuotaError error of
                Inl te \<Rightarrow> p\<lparr>outcome := Inl (exn_val te)\<rparr>
              | Inr q \<Rightarrow>
                  if truthy q then
                    (let f = withRetry (fallbackFn FALLBACK_MODEL) 3 2000 (final p)
                     in f\<lparr>delays := delays p @ delays f\<rparr>)
                  else p))"

text \<open>
  Test tasks. \<open>always_429\<close> counts its calls and rejects each time with status 429.
  \<open>failing_primary\<close> and \<open>good_fallback\<close> share a pair of call counters: the first
  rejects with the given status, the second resolves with the model it was called with.
\<close>

definition always_429 :: "nat \<Rightarrow> (jsval + unit) \<times> nat" where
  "always_429 s = (Inl (JObj [(''status'', JNum 429)]), Suc s)"

definition failing_primary :: "rat \<Rightarrow> string \<Rightarrow> nat \<times> nat \<Rightarrow> (jsval + string) \<times> nat \<times> nat" where
  "failing_primary st model c = (Inl (JObj [(''status'', JNum st)]), (Suc (fst c), snd c))"

definition good_fallback :: "string \<Rightarrow> nat \<times> nat \<Rightarrow> (jsval + string) \<times> nat \<times> nat" where
  "good_fallback model c = (Inr model, (fst c, Suc (snd c)))"

section \<open>Extraction of a JSON payload from model text\<close>

text \<open>
  White space as \<^verbatim>\<open>\s\<close> and \<^verbatim>\<open>trim()\<close> see it, among the code units below 256.
\<close>

definition is_space :: "char \<Rightarrow> bool" where
  "is_space c = (c \<in> set [CHR 0x09, CHR 0x0A, CHR 0x0B, CHR 0x0C, CHR 0x0D, CHR 0x20, CHR 0xA0])"

definition trim :: "string \<Rightarrow> string" where
  "trim s = rev (dropWhile is_space (rev (dropWhile is_space s)))"

text \<open>
  \<^verbatim>\<open>text.match(/```(?:json)?\s*([\s\S]*?)\s*```/)\<close>, as the backtracking matcher runs it;
  the result is the first capture group. \<open>first_some\<close> tries alternatives in order.
  \<open>ws_choices s\<close> are the ways a greedy \<^verbatim>\<open>\s*\<close> can consume a prefix of \<open>s\<close>: the whole run
  of white space first, then one character less at a time. \<open>closes\<close> is the tail
  \<^verbatim>\<open>\s*```\<close>; \<open>lazy_group\<close> is the lazy group followed by that tail, the shortest capture
  first; \<open>after_open\<close> is what follows the opening fence: the optional \<^verbatim>\<open>json\<close>, taken if it
  is there and given back if the rest then fails, and the greedy white space;
  \<open>fence_match\<close> tries the start positions from left to right.
\<close>

definition fence :: string where
  "fence = [CHR 0x60, CHR 0x60, CHR 0x60]"

fun first_some :: "('a \<Rightarrow> 'b option) \<Rightarrow> 'a list \<Rightarrow> 'b option" where
  "first_some f [] = None"
| "first_some f (x # xs) = (case f x of Some y \<Rightarrow> Some y | None \<Rightarrow> first_some f xs)"

definition ws_choices :: "string \<Rightarrow> string list" where
  "ws_choices s = map (\<lambda>k. drop k s) (rev [0..<Suc (length (takeWhile is_space s))])"

definition closes :: "string \<Rightarrow> bool" where
  "closes s = list_ex (prefix fence) (ws_choices s)"

fun lazy_group :: "string \<Rightarrow> string option" where
  "lazy_group [] = (if closes [] then Some [] else None)"
| "lazy_group (c # cs) =
     (if closes (c # cs) then Some [] else map_option ((#) c) (lazy_group cs))"

definition after_open :: "string \<Rightarrow> string option" where
  "after_open s =
     first_some (\<lambda>t. first_some lazy_group (ws_choices t))
       ((if prefix ''json'' s then [drop 4 s] else []) @ [s])"

fun fence_match :: "string \<Rightarrow> string option" where
  "fence_match [] = None"
| "fence_match (c # cs) =
     (if prefix fence (c # cs)
      then (case after_open (drop 3 (c # cs)) of
              Some g \<Rightarrow> Some g
            | None \<Rightarrow> fence_match cs)
      else fence_match cs)"

text \<open>
  \<^verbatim>\<open>text.search(/[{\[]/)\<close>, \<^verbatim>\<open>text.lastIndexOf(c)\<close> (\<open>None\<close> for -1) and
  \<^verbatim>\<open>text.substring(a, b)\<close>, which swaps its arguments when the first is the larger.
\<close>

fun search_class :: "(char \<Rightarrow> bool) \<Rightarrow> string \<Rightarrow> nat option" where
  "search_class P [] = None"
| "search_class P (c # cs) = (if P c then Some 0 else map_option Suc (search_class P cs))"

definition lastIndexOf :: "string \<Rightarrow> char \<Rightarrow> nat option" where
  "lastIndexOf s c =
     (case search_class (\<lambda>x. x = c) (rev s) of
        None \<Rightarrow> None
      | Some k \<Rightarrow> Some (length s - 1 - k))"

definition substring :: "string \<Rightarrow> nat \<Rightarrow> nat \<Rightarrow> string" where
  "substring s a b = take (max a b - min a b) (drop (min a b) s)"

definition is_open :: "char \<Rightarrow> bool" where
  "is_open c = (c = CHR ''{'' \<or> c = CHR ''['')"

text \<open>
  \<^verbatim>\<open>extractJson\<close>. The variable \<^verbatim>\<open>lastClose\<close> is never read and is left out.
\<close>

definition extractJson :: "string \<Rightarrow> string" where
  "extractJson text =
     (case fence_match text of
        Some g \<Rightarrow> trim g
      | None \<Rightarrow>
          (case search_class is_open text of
             Some firstOpen \<Rightarrow>
               (case lastIndexOf text (if text ! firstOpen = CHR ''{'' then CHR ''}'' else CHR '']'') of
                  Some lastIndex \<Rightarrow> substring text firstOpen (lastIndex + 1)
                | None \<Rightarrow> trim text)
           | None \<Rightarrow> trim text))"


text \<open>Removing trailing white space, for stating what the matcher captures.\<close>

definition rtrim :: "string \<Rightarrow> string" where
  "rtrim s = rev (dropWhile is_space (rev s))"

section \<open>The webhook tool\<close>

text \<open>
  \<^verbatim>\<open>callWebhookTool\<close>. The four functions, the fetched response (status flag, status code
  and body text), and the helpers the normalizers use: \<^verbatim>\<open>Array.prototype.map\<close> with a
  callback that can throw, \<^verbatim>\<open>typeof v === 'string'\<close>, \<^verbatim>\<open>split\<close>, \<^verbatim>\<open>join\<close>, the replacement of
  \<^verbatim>\<open>/\.[^/.]+$/\<close> by the empty string (the leftmost dot followed to the end by one or more
  characters other than dot and slash), and
  \<^verbatim>\<open>word.charAt(0).toUpperCase() + word.slice(1)\<close>. \<^verbatim>\<open>String.prototype.toUpperCase\<close> is a
  parameter of the model, \<open>toUpperCase\<close>, passed down from \<^verbatim>\<open>callWebhookTool\<close> to the one place
  that calls it.
\<close>

datatype func = url_map | url_scrape | page_ranked_keywords | suggested_keywords

fun func_name :: "func \<Rightarrow> string" where
  "func_name url_map = ''url_map''"
| "func_name url_scrape = ''url_scrape''"
| "func_name page_ranked_keywords = ''page_ranked_keywords''"
| "func_name suggested_keywords = ''suggested_keywords''"

record response =
  ok :: bool
  status :: nat
  body :: string

function show_nat :: "nat \<Rightarrow> string" where
  "show_nat n =
     (if n < 10 then [char_of (48 + n)]
      else show_nat (n div 10) @ [char_of (48 + n mod 10)])"
  by pat_completeness auto
termination
  by (relation "measure id") auto

fun map_exn :: "('a \<Rightarrow> exn + 'b) \<Rightarrow> 'a list \<Rightarrow> exn + 'b list" where
  "map_exn f [] = Inr []"
| "map_exn f (x # xs) =
     (case f x of
        Inl e \<Rightarrow> Inl e
      | Inr y \<Rightarrow> (case map_exn f xs of Inl e \<Rightarrow> Inl e | Inr ys \<Rightarrow> Inr (y # ys)))"

fun is_string :: "jsval \<Rightarrow> bool" where
  "is_string (JStr s) = True"
| "is_string v = False"

fun split_on :: "char \<Rightarrow> string \<Rightarrow> string list" where
  "split_on d [] = [[]]"
| "split_on d (c # cs) =
     (if c = d then [] # split_on d cs
      else (case split_on d cs of w # ws \<Rightarrow> (c # w) # ws | [] \<Rightarrow> [[c]]))"

fun join_with :: "string \<Rightarrow> string list \<Rightarrow> string" where
  "join_with sep [] = []"
| "join_with sep [w] = w"
| "join_with sep (w # v # ws) = w @ sep @ join_with sep (v # ws)"

fun strip_ext :: "string \<Rightarrow> string" where
  "strip_ext [] = []"
| "strip_ext (c # cs) =
     (if c = CHR ''.'' \<and> cs \<noteq> [] \<and> list_all (\<lambda>x. x \<noteq> CHR ''/'' \<and> x \<noteq> CHR ''.'') cs then []
      else c # strip_ext cs)"

definition capitalize :: "(string \<Rightarrow> string) \<Rightarrow> string \<Rightarrow> string" where
  "capitalize toUpperCase word = toUpperCase (take 1 word) @ drop 1 word"

text \<open>
  The title \<^verbatim>\<open>url_map\<close> generates from the last non-empty segment of a URL, and the
  callback of its \<^verbatim>\<open>map\<close>: \<open>None\<close> is the \<^verbatim>\<open>null\<close> that the following \<^verbatim>\<open>filter\<close> removes. The
  test \<^verbatim>\<open>!item || (typeof item.url !== 'string' && typeof item.loc !== 'string')\<close> is written
  by its complement, with the branches exchanged; so is \<^verbatim>\<open>!title || typeof title !== 'string'\<close>.
\<close>

definition generated_title :: "(string \<Rightarrow> string) \<Rightarrow> string \<Rightarrow> string" where
  "generated_title toUpperCase url =
     (let parts = filter (\<lambda>w. w \<noteq> []) (split_on (CHR ''/'') url);
          path = (if parts = [] then [] else last parts);
          spaced = map (\<lambda>c. if c = CHR ''-'' \<or> c = CHR ''_'' then CHR '' '' else c) path
      in join_with '' '' (map (capitalize toUpperCase) (split_on (CHR '' '') (strip_ext spaced))))"

definition url_map_item :: "(string \<Rightarrow> string) \<Rightarrow> jsval \<Rightarrow> exn + jsval option" where
  "url_map_item toUpperCase item =
     (if truthy item \<and> (is_string (get_prop item ''url'') \<or> is_string (get_prop item ''loc''))
      then
        (let url = js_or (get_prop item ''url'') (get_prop item ''loc'');
             title = get_prop item ''title''
         in if truthy title \<and> is_string title
            then Inr (Some (JObj [(''url'', url), (''title'', title)]))
            else (case url of
                    JStr u \<Rightarrow>
                      Inr (Some (JObj [(''url'', url),
                                       (''title'', js_or (JStr (generated_title toUpperCase u)) url)]))
                  | JUndefined \<Rightarrow> Inl (cannot_read url ''split'')
                  | JNull \<Rightarrow> Inl (cannot_read url ''split'')
                  | _ \<Rightarrow> Inl (TypeError ''url.split is not a function'')))
      else Inr None)"

text \<open>
  The three normalizers, each a branch of \<^verbatim>\<open>callWebhookTool\<close> working on \<^verbatim>\<open>data\<close>:
  \<^verbatim>\<open>data?.internal_links\<close> for \<^verbatim>\<open>url_map\<close>;
  \<^verbatim>\<open>data?.ranked_keywords || (Array.isArray(data) ? data : [])\<close> for \<^verbatim>\<open>page_ranked_keywords\<close>;
  for \<^verbatim>\<open>suggested_keywords\<close> first \<^verbatim>\<open>data.related_keyword\<close>, whose items are replaced by their
  \<^verbatim>\<open>keyword\<close>, then \<^verbatim>\<open>data?.suggested_keywords || (Array.isArray(data) ? data : [])\<close>, whose
  items are replaced by \<^verbatim>\<open>kw.Keyword || kw.keyword || kw\<close>.
\<close>

definition normalize_links :: "(string \<Rightarrow> string) \<Rightarrow> jsval \<Rightarrow> exn + jsval" where
  "normalize_links toUpperCase data =
     (case opt_prop data ''internal_links'' of
        JArr links \<Rightarrow>
          (case map_exn (url_map_item toUpperCase) links of
             Inl e \<Rightarrow> Inl e
           | Inr items \<Rightarrow> Inr (JArr (List.map_filter id items)))
      | _ \<Rightarrow> Inr (JArr []))"

definition ranked_keyword :: "jsval \<Rightarrow> exn + jsval" where
  "ranked_keyword kw =
     (if nullish kw then Inl (cannot_read kw ''Keyword'')
      else Inr (JObj
        [(''keyword'', js_or (js_or (get_prop kw ''Keyword'') (get_prop kw ''keyword'')) (JStr '''')),
         (''competition'', js_or (get_prop kw ''competition_score'') (JNum 0)),
         (''competition_level'', js_or (get_prop kw ''competition_level'') (JStr ''UNKNOWN'')),
         (''cpc'', js_or (get_prop kw ''cpc'') (JNum 0)),
         (''search_volume'', js_or (get_prop kw ''search_volume'') (JNum 0)),
         (''difficulty'', js_or (get_prop kw ''keyword_difficulty'') (JNum 0)),
         (''intent'', js_or (get_prop kw ''intent'') (JStr ''unknown''))]))"

definition normalize_ranked :: "jsval \<Rightarrow> exn + jsval" where
  "normalize_ranked data =
     (let keywords = js_or (opt_prop data ''ranked_keywords'') (if isArray data then data else JArr [])
      in case keywords of
           JArr kws \<Rightarrow>
             (case map_exn ranked_keyword kws of Inl e \<Rightarrow> Inl e | Inr rs \<Rightarrow> Inr (JArr rs))
         | _ \<Rightarrow> Inr (JArr []))"

definition suggested_item :: "jsval \<Rightarrow> exn + jsval" where
  "suggested_item kw =
     (if nullish kw then Inl (cannot_read kw ''Keyword'')
      else Inr (js_or (js_or (get_prop kw ''Keyword'') (get_prop kw ''keyword'')) kw))"

definition normalize_suggested :: "jsval \<Rightarrow> exn + jsval" where
  "normalize_suggested data =
     (case (if truthy data then get_prop data ''related_keyword'' else JUndefined) of
        JArr related \<Rightarrow>
          (case map_exn (\<lambda>kw. getp kw ''keyword'') related of
             Inl e \<Rightarrow> Inl e
           | Inr ks \<Rightarrow> Inr (JArr (filter truthy ks)))
      | _ \<Rightarrow>
          (let keywords =
                 js_or (opt_prop data ''suggested_keywords'') (if isArray data then data else JArr [])
           in case keywords of
                JArr kws \<Rightarrow>
                  (case map_exn suggested_item kws of
                     Inl e \<Rightarrow> Inl e
                   | Inr ks \<Rightarrow> Inr (JArr (filter truthy ks)))
              | _ \<Rightarrow> Inr (JArr [])))"

text \<open>
  What follows \<^verbatim>\<open>JSON.parse\<close>: \<^verbatim>\<open>data\<close> is the first element of a non-empty array response,
  and the response itself otherwise; \<^verbatim>\<open>url_scrape\<close> returns the response as it is.
\<close>

definition first_element :: "jsval \<Rightarrow> jsval" where
  "first_element responseData = (case responseData of JArr (x # xs) \<Rightarrow> x | _ \<Rightarrow> responseData)"

definition process_response :: "(string \<Rightarrow> string) \<Rightarrow> func \<Rightarrow> jsval \<Rightarrow> exn + jsval" where
  "process_response toUpperCase func responseData =
     (let data = first_element responseData
      in if func = url_map then normalize_links toUpperCase data
         else if func = page_ranked_keywords then normalize_ranked data
         else if func = suggested_keywords then normalize_suggested data
         else Inr responseData)"

text \<open>
  \<^verbatim>\<open>callWebhookTool\<close> from the fetched response on (the webhook URL is configured, so the
  first test is false and the request is sent). \<open>fetched\<close> is the outcome of \<^verbatim>\<open>fetch\<close>,
  \<open>parsed\<close> the outcome of \<^verbatim>\<open>JSON.parse(responseText)\<close>, read only when the body is not
  empty. Whatever is thrown inside the \<^verbatim>\<open>try\<close> block is caught and replaced by an
  \<^verbatim>\<open>Error\<close> that quotes its message; a response that is not ok always ends in the inner
  \<^verbatim>\<open>catch\<close>, which quotes the status and the body.
\<close>

definition callWebhookTool ::
  "(string \<Rightarrow> string) \<Rightarrow> func \<Rightarrow> exn + response \<Rightarrow> exn + jsval \<Rightarrow> exn + jsval" where
  "callWebhookTool toUpperCase func fetched parsed =
     (case (case fetched of
              Inl e \<Rightarrow> Inl e
            | Inr response \<Rightarrow>
                if ok response then
                  (if body response = [] then
                     (if func = url_map then Inr (JArr [])
                      else if func = page_ranked_keywords then Inr (JArr [])
                      else Inr JNull)
                   else (case parsed of
                           Inl e \<Rightarrow> Inl e
                         | Inr responseData \<Rightarrow> process_response toUpperCase func responseData))
                else Inl (Error (''Webhook request failed with status '' @ show_nat (status response)
                                 @ '': '' @ body response))) of
        Inl error \<Rightarrow>
          Inl (Error (''Failed to get data from custom tool: '' @ func_name func @ ''. ''
                      @ message error))
      | Inr v \<Rightarrow> Inr v)"

section \<open>The keyword strategy\<close>

text \<open>
  \<^verbatim>\<open>generateKeywordStrategy\<close>. The two calls of the generative model are tasks whose result
  is the \<^verbatim>\<open>text\<close> of the response (\<open>None\<close> when it is undefined); the second one is given the
  seeds and the suggestions, which is what its prompt is built from, with the ranked
  keywords, taken to be the records their type says. \<^verbatim>\<open>JSON.parse\<close> is a parameter. \<^verbatim>\<open>callWebhook\<close> is called with a seed and returns a promise that rejects (\<open>Inl\<close>)
  or resolves (\<open>Inr\<close>); the calls are started in the order of the seeds and are modelled
  one after the other.

  \<open>fallback_seed\<close> is \<^verbatim>\<open>topic.split(' ').slice(0, 2).join(' ')\<close> and \<open>seeds_of\<close> the inner
  \<^verbatim>\<open>try\<close>/\<^verbatim>\<open>catch\<close>, in which \<^verbatim>\<open>extractJson\<close> of an undefined text throws as well.
  \<open>lookup_all\<close> is the \<^verbatim>\<open>map\<close> over the seeds with its \<^verbatim>\<open>.catch(err => [])\<close> and the
  \<^verbatim>\<open>Promise.all\<close>; \<open>flat\<close> is \<^verbatim>\<open>results.flat()\<close>.
\<close>

definition fallback_seed :: "string \<Rightarrow> string" where
  "fallback_seed topic = join_with '' '' (take 2 (split_on (CHR '' '') topic))"

definition seeds_of :: "(string \<Rightarrow> exn + jsval) \<Rightarrow> string \<Rightarrow> string option \<Rightarrow> jsval" where
  "seeds_of JSON_parse topic seedText =
     (case seedText of
        None \<Rightarrow> JArr [JStr (fallback_seed topic)]
      | Some t \<Rightarrow>
          (case JSON_parse (extractJson t) of
             Inl e \<Rightarrow> JArr [JStr (fallback_seed topic)]
           | Inr v \<Rightarrow> v))"

fun lookup_all ::
  "(jsval \<Rightarrow> 's \<Rightarrow> (jsval + jsval) \<times> 's) \<Rightarrow> jsval list \<Rightarrow> 's \<Rightarrow> jsval list \<times> 's" where
  "lookup_all callWebhook [] s = ([], s)"
| "lookup_all callWebhook (seed # seeds) s =
     (case callWebhook seed s of
        (r, s1) \<Rightarrow>
          (case lookup_all callWebhook seeds s1 of
             (rs, s2) \<Rightarrow> ((case r of Inl err \<Rightarrow> JArr [] | Inr v \<Rightarrow> v) # rs, s2)))"

fun flat :: "jsval list \<Rightarrow> jsval list" where
  "flat [] = []"
| "flat (JArr xs # rs) = xs @ flat rs"
| "flat (v # rs) = v # flat rs"

definition gather_suggestions ::
  "(jsval \<Rightarrow> 's \<Rightarrow> (jsval + jsval) \<times> 's) \<Rightarrow> jsval list \<Rightarrow> 's \<Rightarrow> jsval list \<times> 's" where
  "gather_suggestions callWebhook seeds s =
     (if length seeds > 0
      then (case lookup_all callWebhook (take 3 seeds) s of (results, s1) \<Rightarrow> (flat results, s1))
      else ([], s))"

text \<open>
  One run of the function passed to \<^verbatim>\<open>withRetry\<close>. Every failure inside it is replaced by
  the same \<^verbatim>\<open>Error\<close>. When the parsed seeds are not an array, the run fails before any
  lookup and before the second model call: \<^verbatim>\<open>seeds.length\<close> throws on \<^verbatim>\<open>null\<close>,
  \<^verbatim>\<open>limitedSeeds.map\<close> or \<^verbatim>\<open>seeds.slice\<close> is not a function when the length is positive, and
  otherwise \<^verbatim>\<open>seeds.join\<close> is not a function when the prompt is built.
\<close>

definition strategy_failed :: jsval where
  "strategy_failed = exn_val (Error ''Failed to generate a keyword strategy.'')"

definition keyword_strategy_attempt ::
  "(string \<Rightarrow> exn + jsval) \<Rightarrow> string \<Rightarrow> ('s \<Rightarrow> (jsval + string option) \<times> 's)
   \<Rightarrow> (jsval \<Rightarrow> 's \<Rightarrow> (jsval + jsval) \<times> 's)
   \<Rightarrow> (jsval list \<Rightarrow> jsval list \<Rightarrow> 's \<Rightarrow> (jsval + string option) \<times> 's)
   \<Rightarrow> 's \<Rightarrow> (jsval + jsval) \<times> 's" where
  "keyword_strategy_attempt JSON_parse topic seedModel callWebhook selectModel s =
     (case seedModel s of
        (Inl e, s1) \<Rightarrow> (Inl strategy_failed, s1)
      | (Inr seedText, s1) \<Rightarrow>
          (case seeds_of JSON_parse topic seedText of
             JArr seeds \<Rightarrow>
               (case gather_suggestions callWebhook seeds s1 of
                  (allSuggestions, s2) \<Rightarrow>
                    (case selectModel seeds allSuggestions s2 of
                       (Inl e, s3) \<Rightarrow> (Inl strategy_failed, s3)
                     | (Inr None, s3) \<Rightarrow> (Inl strategy_failed, s3)
                     | (Inr (Some finalText), s3) \<Rightarrow>
                         (case JSON_parse (extractJson finalText) of
                            Inl e \<Rightarrow> (Inl strategy_failed, s3)
                          | Inr v \<Rightarrow> (Inr v, s3))))
           | _ \<Rightarrow> (Inl strategy_failed, s1)))"

definition generateKeywordStrategy ::
  "(string \<Rightarrow> exn + jsval) \<Rightarrow> string \<Rightarrow> ('s \<Rightarrow> (jsval + string option) \<times> 's)
   \<Rightarrow> (jsval \<Rightarrow> 's \<Rightarrow> (jsval + jsval) \<times> 's)
   \<Rightarrow> (jsval list \<Rightarrow> jsval list \<Rightarrow> 's \<Rightarrow> (jsval + string option) \<times> 's)
   \<Rightarrow> 's \<Rightarrow> (jsval, 's) run" where
  "generateKeywordStrategy JSON_parse topic seedModel callWebhook selectModel =
     withRetry (keyword_strategy_attempt JSON_parse topic seedModel callWebhook selectModel) 3 2000"

text \<open>
  Test data. The state is the list of the seeds the webhook was asked for, in order, with
  the suggestions the selection call was given (\<open>None\<close> before it is called).
  \<open>webhook_down\<close> always rejects; \<open>webhook_flaky\<close> rejects for the seed \<^verbatim>\<open>content\<close> and
  resolves with the one-element array of the seed otherwise. \<open>seed_answer\<close> is a seed call
  that answers with a given text, \<open>select_recording\<close> a selection call that answers with
  \<^verbatim>\<open>[1]\<close>, \<open>four_seeds_text\<close> the text \<^verbatim>\<open>["seo","content","links","ads"]\<close>, and \<open>parse_test\<close>
  is \<^verbatim>\<open>JSON.parse\<close> on the texts used.
\<close>

definition webhook_down ::
  "jsval \<Rightarrow> jsval list \<times> jsval list option
   \<Rightarrow> (jsval + jsval) \<times> jsval list \<times> jsval list option" where
  "webhook_down seed st =
     (Inl (exn_val (Error ''Failed to get data from custom tool'')), (fst st @ [seed], snd st))"

definition webhook_flaky ::
  "jsval \<Rightarrow> jsval list \<times> jsval list option
   \<Rightarrow> (jsval + jsval) \<times> jsval list \<times> jsval list option" where
  "webhook_flaky seed st =
     (if seed = JStr ''content''
      then Inl (exn_val (Error ''Failed to get data from custom tool''))
      else Inr (JArr [seed]),
      (fst st @ [seed], snd st))"

definition seed_answer :: "string \<Rightarrow> 's \<Rightarrow> (jsval + string option) \<times> 's" where
  "seed_answer t st = (Inr (Some t), st)"

definition select_recording ::
  "jsval list \<Rightarrow> jsval list \<Rightarrow> jsval list \<times> jsval list option
   \<Rightarrow> (jsval + string option) \<times> jsval list \<times> jsval list option" where
  "select_recording seeds suggestions st = (Inr (Some ''[1]''), (fst st, Some suggestions))"

definition four_seeds_text :: string where
  "four_seeds_text =
     ''['' @ [CHR 0x22] @ ''seo'' @ [CHR 0x22] @ '','' @ [CHR 0x22] @ ''content'' @ [CHR 0x22]
     @ '','' @ [CHR 0x22] @ ''links'' @ [CHR 0x22] @ '','' @ [CHR 0x22] @ ''ads'' @ [CHR 0x22]
     @ '']''"

definition four_seeds :: "jsval list" where
  "four_seeds = [JStr ''seo'', JStr ''content'', JStr ''links'', JStr ''ads'']"

definition parse_test :: "string \<Rightarrow> exn + jsval" where
  "parse_test t =
     (if t = four_seeds_text then Inr (JArr four_seeds)
      else if t = ''[1]'' then Inr (JArr [JNum 1])
      else Inl (SyntaxError ''Unexpected token''))"

section \<open>Properties of the classifier\<close>

lemma includes_str_sublist: "includes_str s p = sublist p s"
  by (induction s) (auto simp: sublist_Cons_right)

lemma includes_any_str:
  "includes_any (JStr m) ps = Inr (\<exists>p\<in>set ps. sublist p m)"
  by (induction ps) (auto simp: includes_str_sublist split: bool.splits)

lemma quota_substrings_nonempty: "p \<in> set quota_substrings \<Longrightarrow> p \<noteq> []"
  by (auto simp: quota_substrings_def)

text \<open>
  C2. A failure whose \<^verbatim>\<open>status\<close> is 429, 500 or 503, or \<^verbatim>\<open>RESOURCE_EXHAUSTED\<close> or
  \<^verbatim>\<open>PERMISSION_DENIED\<close>, is classified Transient, and \<^verbatim>\<open>isQuotaError\<close> returns \<^verbatim>\<open>true\<close>; so is
  a failure whose message is a string that contains one of the eight fixed substrings,
  whatever its status. A failure whose \<^verbatim>\<open>status\<close> is 400, 401 or 403 and whose message is
  absent or a string that contains none of the substrings is classified Fatal:
  \<^verbatim>\<open>isQuotaError\<close> returns \<^verbatim>\<open>false\<close>, or the falsy message (\<^verbatim>\<open>undefined\<close>, the empty string)
  that ended the \<^verbatim>\<open>&&\<close>.
\<close>

theorem classify_by_fields:
  "(get_prop e ''status'' \<in> {JNum 429, JNum 500, JNum 503,
        JStr ''RESOURCE_EXHAUSTED'', JStr ''PERMISSION_DENIED''}
      \<longrightarrow> isQuotaError e = Inr (JBool True) \<and> classify e = Inr Transient)
   \<and> (\<not> nullish e
       \<and> (\<exists>m p. get_prop e ''message'' = JStr m \<and> p \<in> set quota_substrings \<and> sublist p m)
      \<longrightarrow> isQuotaError e = Inr (JBool True) \<and> classify e = Inr Transient)
   \<and> (get_prop e ''status'' \<in> {JNum 400, JNum 401, JNum 403}
       \<and> (get_prop e ''message'' = JUndefined
            \<or> (\<exists>m. get_prop e ''message'' = JStr m
                  \<and> (\<forall>p\<in>set quota_substrings. \<not> sublist p m)))
      \<longrightarrow> classify e = Inr Fatal
          \<and> (isQuotaError e = Inr (JBool False)
               \<or> isQuotaError e = Inr (get_prop e ''message'')))"
proof (intro conjI impI)
  assume a: "get_prop e ''status'' \<in> {JNum 429, JNum 500, JNum 503,
        JStr ''RESOURCE_EXHAUSTED'', JStr ''PERMISSION_DENIED''}"
  then have "\<not> nullish e" by (cases e) auto
  with a show q: "isQuotaError e = Inr (JBool True)"
    by (auto simp: isQuotaError_def getp_def Let_def)
  then show "classify e = Inr Transient" by (simp add: classify_def)
next
  assume a: "\<not> nullish e
     \<and> (\<exists>m p. get_prop e ''message'' = JStr m \<and> p \<in> set quota_substrings \<and> sublist p m)"
  then obtain m p where
    m: "get_prop e ''message'' = JStr m" "p \<in> set quota_substrings" "sublist p m"
    by blast
  then have "m \<noteq> []" using quota_substrings_nonempty by fastforce
  with a m show q: "isQuotaError e = Inr (JBool True)"
    by (auto simp: isQuotaError_def getp_def Let_def includes_any_str)
  then show "classify e = Inr Transient" by (simp add: classify_def)
next
  assume a: "get_prop e ''status'' \<in> {JNum 400, JNum 401, JNum 403}
       \<and> (get_prop e ''message'' = JUndefined
            \<or> (\<exists>m. get_prop e ''message'' = JStr m
                  \<and> (\<forall>p\<in>set quota_substrings. \<not> sublist p m)))"
  then have n: "\<not> nullish e" by (cases e) auto
  with a show "classify e = Inr Fatal"
    by (auto simp: classify_def isQuotaError_def getp_def Let_def includes_any_str)
  from n a show "isQuotaError e = Inr (JBool False)
      \<or> isQuotaError e = Inr (get_prop e ''message'')"
    by (auto simp: isQuotaError_def getp_def Let_def includes_any_str)
qed

theorem classify_by_fields_witness:
  "classify (JObj [(''status'', JNum 503)]) = Inr Transient
   \<and> classify (JObj [(''status'', JNum 400), (''message'', JStr ''Request quota exceeded'')])
       = Inr Transient
   \<and> classify (JObj [(''status'', JNum 403), (''message'', JStr ''forbidden'')]) = Inr Fatal"
proof -
  have h2: "sublist ''quota'' ''Request quota exceeded''"
    by (simp add: includes_str_sublist [symmetric])
  have h3: "\<forall>p\<in>set quota_substrings. \<not> sublist p ''forbidden''"
    by (simp add: quota_substrings_def includes_str_sublist [symmetric])
  have "classify (JObj [(''status'', JNum 503)]) = Inr Transient"
    using classify_by_fields [of "JObj [(''status'', JNum 503)]"] by simp
  moreover have
    "classify (JObj [(''status'', JNum 400), (''message'', JStr ''Request quota exceeded'')])
       = Inr Transient"
    using h2
      classify_by_fields
        [of "JObj [(''status'', JNum 400), (''message'', JStr ''Request quota exceeded'')]"]
    by (auto simp: quota_substrings_def)
  moreover have
    "classify (JObj [(''status'', JNum 403), (''message'', JStr ''forbidden'')]) = Inr Fatal"
    using h3
      classify_by_fields [of "JObj [(''status'', JNum 403), (''message'', JStr ''forbidden'')]"]
    by simp
  ultimately show ?thesis by blast
qed

text \<open>
  C5. \<^verbatim>\<open>isQuotaError(null)\<close> and \<^verbatim>\<open>isQuotaError(undefined)\<close> do not return: the guard
  \<^verbatim>\<open>if (error)\<close> covers the log line only, and \<^verbatim>\<open>error.status\<close> on the next line throws a
  type error.
\<close>

theorem isQuotaError_null_throws:
  "isQuotaError JNull
     = Inl (TypeError (''Cannot read properties of null (reading '' @ quoted ''status'' @ '')''))
   \<and> isQuotaError JUndefined
     = Inl (TypeError (''Cannot read properties of undefined (reading '' @ quoted ''status'' @ '')''))"
  by (simp add: isQuotaError_def getp_def cannot_read_def)

text \<open>
  Every other value without a truthy \<^verbatim>\<open>status\<close>, \<^verbatim>\<open>code\<close> or \<^verbatim>\<open>message\<close> (an empty object,
  a string, a number, an array) is classified Fatal, the result being \<^verbatim>\<open>undefined\<close> or
  the falsy message.
\<close>

lemma classify_no_fields:
  "\<not> nullish e \<Longrightarrow> \<not> truthy (get_prop e ''status'') \<Longrightarrow> \<not> truthy (get_prop e ''code'')
   \<Longrightarrow> \<not> truthy (get_prop e ''message'')
   \<Longrightarrow> isQuotaError e = Inr (get_prop e ''message'') \<and> classify e = Inr Fatal"
  by (auto simp: classify_def isQuotaError_def getp_def Let_def)

section \<open>Properties of the retry executor\<close>

declare withRetry.simps [simp del]

lemma withRetry_ok:
  "fn s = (Inr v, s1) \<Longrightarrow> withRetry fn retries baseDelay s = \<lparr>outcome = Inr v, delays = [], final = s1\<rparr>"
  by (subst withRetry.simps) simp

lemma withRetry_fatal:
  "fn s = (Inl e, s1) \<Longrightarrow> classify e = Inr Fatal
   \<Longrightarrow> withRetry fn retries baseDelay s = \<lparr>outcome = Inl e, delays = [], final = s1\<rparr>"
  by (subst withRetry.simps) (auto simp: classify_def split: sum.splits if_splits)

lemma withRetry_exhausted:
  "fn s = (Inl e, s1) \<Longrightarrow> retries \<le> 0
   \<Longrightarrow> withRetry fn retries baseDelay s = \<lparr>outcome = Inl e, delays = [], final = s1\<rparr>"
  by (subst withRetry.simps) simp

lemma withRetry_again:
  "fn s = (Inl e, s1) \<Longrightarrow> classify e = Inr Transient \<Longrightarrow> 0 < retries
   \<Longrightarrow> withRetry fn retries baseDelay s
       = (let r = withRetry fn (retries - 1) (baseDelay * 2) s1
          in r\<lparr>delays := baseDelay # delays r\<rparr>)"
  by (subst withRetry.simps) (auto simp: classify_def split: sum.splits if_splits)

lemma withRetry_cases:
  obtains
    (ok) v s1 where "fn s = (Inr v, s1)"
        "withRetry fn retries baseDelay s = \<lparr>outcome = Inr v, delays = [], final = s1\<rparr>"
  | (again) e s1 where "fn s = (Inl e, s1)" "0 < retries" "classify e = Inr Transient"
        "withRetry fn retries baseDelay s
           = (let r = withRetry fn (retries - 1) (baseDelay * 2) s1
              in r\<lparr>delays := baseDelay # delays r\<rparr>)"
  | (stop) e x s1 where "fn s = (Inl e, s1)"
        "withRetry fn retries baseDelay s = \<lparr>outcome = Inl x, delays = [], final = s1\<rparr>"
proof -
  obtain x s1 where fs: "fn s = (x, s1)" by (cases "fn s")
  show thesis
  proof (cases x)
    case (Inr v)
    with fs show thesis using ok withRetry_ok by metis
  next
    case (Inl e)
    show thesis
    proof (cases "0 < retries \<and> classify e = Inr Transient")
      case True
      with fs Inl show thesis using again withRetry_again by metis
    next
      case False
      have "\<exists>x. withRetry fn retries baseDelay s = \<lparr>outcome = Inl x, delays = [], final = s1\<rparr>"
        using fs Inl False
        by (subst withRetry.simps) (auto simp: classify_def split: sum.splits if_splits)
      with fs Inl show thesis using stop by blast
    qed
  qed
qed

lemma withRetry_delays_map:
  "delays (withRetry fn retries baseDelay s)
     = map (\<lambda>k. baseDelay * 2 ^ k) [0..<length (delays (withRetry fn retries baseDelay s))]"
proof (induction fn retries baseDelay s rule: withRetry.induct)
  case (1 fn retries baseDelay s)
  show ?case
  proof (cases rule: withRetry_cases [where fn = fn and s = s and retries = retries and baseDelay = baseDelay])
    case (ok v s1)
    then show ?thesis by simp
  next
    case (again e s1)
    then obtain q where q: "isQuotaError e = Inr q" "truthy q"
      by (auto simp: classify_def split: sum.splits if_splits)
    have "delays (withRetry fn (retries - 1) (baseDelay * 2) s1)
       = map (\<lambda>k. baseDelay * 2 * 2 ^ k)
           [0..<length (delays (withRetry fn (retries - 1) (baseDelay * 2) s1))]"
      using "1.IH" [OF again(1) [symmetric] refl again(2) q] .
    with again(4) show ?thesis
      by (simp add: Let_def map_upt_Suc mult.assoc del: upt_Suc)
  next
    case (stop e x s1)
    then show ?thesis by simp
  qed
qed

lemma withRetry_delays_length:
  "length (delays (withRetry fn retries baseDelay s)) \<le> nat retries"
proof (induction fn retries baseDelay s rule: withRetry.induct)
  case (1 fn retries baseDelay s)
  show ?case
  proof (cases rule: withRetry_cases [where fn = fn and s = s and retries = retries and baseDelay = baseDelay])
    case (ok v s1)
    then show ?thesis by simp
  next
    case (again e s1)
    then obtain q where q: "isQuotaError e = Inr q" "truthy q"
      by (auto simp: classify_def split: sum.splits if_splits)
    have "length (delays (withRetry fn (retries - 1) (baseDelay * 2) s1)) \<le> nat (retries - 1)"
      using "1.IH" [OF again(1) [symmetric] refl again(2) q] .
    with again(2,4) show ?thesis
      by (simp add: Let_def)
  next
    case (stop e x s1)
    then show ?thesis by simp
  qed
qed

lemma withRetry_always_transient:
  "\<forall>s. \<exists>e s1. fn s = (Inl e, s1) \<and> classify e = Inr Transient \<Longrightarrow> 0 \<le> retries
   \<Longrightarrow> length (delays (withRetry fn retries baseDelay s)) = nat retries"
proof (induction fn retries baseDelay s rule: withRetry.induct)
  case (1 fn retries baseDelay s)
  from "1.prems" obtain e s1 where e: "fn s = (Inl e, s1)" "classify e = Inr Transient"
    by blast
  then obtain q where q: "isQuotaError e = Inr q" "truthy q"
    by (auto simp: classify_def split: sum.splits if_splits)
  show ?case
  proof (cases "0 < retries")
    case True
    have "length (delays (withRetry fn (retries - 1) (baseDelay * 2) s1)) = nat (retries - 1)"
      using "1.IH" [OF e(1) [symmetric] refl True q "1.prems"(1)] True by simp
    with True e show ?thesis
      by (simp add: withRetry_again Let_def)
  next
    case False
    with "1.prems" e show ?thesis by (simp add: withRetry_exhausted)
  qed
qed


text \<open>
  C3. The \<open>n\<close>-th delay of a run of \<^verbatim>\<open>withRetry\<close> (the one slept after the \<open>n\<close>-th failed
  attempt, before attempt \<open>n + 1\<close>) is \<^verbatim>\<open>baseDelay\<close> times \<open>2 ^ (n - 1)\<close>, two being the
  backoff factor the code has, and there are at most \<^verbatim>\<open>retries\<close> delays. For three retries
  and a base delay of 2000 ms, a task that fails with a Transient error at every attempt
  is delayed by 2000, 4000 and 8000 ms before its attempts 2, 3 and 4.
\<close>

theorem withRetry_backoff_schedule:
  "(\<forall>n. 1 \<le> n \<and> n \<le> length (delays (withRetry fn retries baseDelay s))
        \<longrightarrow> delays (withRetry fn retries baseDelay s) ! (n - 1) = baseDelay * 2 ^ (n - 1))
   \<and> length (delays (withRetry fn retries baseDelay s)) \<le> nat retries
   \<and> ((\<forall>t. \<exists>e t1. fn t = (Inl e, t1) \<and> classify e = Inr Transient)
        \<longrightarrow> delays (withRetry fn 3 2000 s) = [2000, 4000, 8000])"
proof (intro conjI allI impI)
  fix n
  assume n: "1 \<le> n \<and> n \<le> length (delays (withRetry fn retries baseDelay s))"
  let ?ds = "delays (withRetry fn retries baseDelay s)"
  have "?ds ! (n - 1) = map (\<lambda>k. baseDelay * 2 ^ k) [0..<length ?ds] ! (n - 1)"
    using withRetry_delays_map [of fn retries baseDelay s] by simp
  also have "\<dots> = baseDelay * 2 ^ (n - 1)"
  proof -
    have "n - 1 < length ?ds" using n by arith
    then show ?thesis by simp
  qed
  finally show "?ds ! (n - 1) = baseDelay * 2 ^ (n - 1)" .
next
  show "length (delays (withRetry fn retries baseDelay s)) \<le> nat retries"
    by (rule withRetry_delays_length)
next
  assume "\<forall>t. \<exists>e t1. fn t = (Inl e, t1) \<and> classify e = Inr Transient"
  then have "length (delays (withRetry fn 3 2000 s)) = 3"
    using withRetry_always_transient [of fn 3 2000 s] by simp
  then have "delays (withRetry fn 3 2000 s) = map (\<lambda>k. 2000 * 2 ^ k) [0..<3]"
    using withRetry_delays_map [of fn 3 2000 s] by simp
  then show "delays (withRetry fn 3 2000 s) = [2000, 4000, 8000]"
    by (simp add: upt_rec)
qed

theorem withRetry_backoff_schedule_witness:
  "delays (withRetry always_429 3 2000 0) = [2000, 4000, 8000]
   \<and> delays (withRetry always_429 3 2000 0) ! (2 - 1) = 2000 * 2 ^ (2 - 1)"
proof -
  have c: "classify (JObj [(''status'', JNum 429)]) = Inr Transient"
    by (simp add: classify_def isQuotaError_def getp_def)
  have h: "\<forall>t. \<exists>e t1. always_429 t = (Inl e, t1) \<and> classify e = Inr Transient"
    using c by (simp add: always_429_def)
  have d: "delays (withRetry always_429 3 2000 0) = [2000, 4000, 8000]"
    using h withRetry_backoff_schedule [of always_429 3 2000 0] by blast
  have "(1::nat) \<le> 2 \<and> 2 \<le> length (delays (withRetry always_429 3 2000 0))"
    using d by simp
  then have "delays (withRetry always_429 3 2000 0) ! (2 - 1) = 2000 * 2 ^ (2 - 1)"
    using withRetry_backoff_schedule [of always_429 3 2000 0] by blast
  with d show ?thesis by blast
qed

section \<open>Properties of the fallback router\<close>

text \<open>
  C1. Let \<open>p\<close> be the run of the primary task under the shallow policy (one retry, 1000
  ms). If it ends in a failure classified Transient, the router's run is the run of the
  fallback task under the deeper policy (three retries, 2000 ms), started in the state the
  primary left; if the fallback then succeeds at its first attempt, its result is returned
  and the final state is the one left by that single call. If \<open>p\<close> ends in a failure
  classified Fatal, the router's run is \<open>p\<close> itself, whatever the fallback task is: the
  failure is returned and the state is the one the primary left; when the first attempt
  already fails Fatal, there is no delay at all. With no fallback task given, the primary
  task itself is run with the fallback model.
\<close>

theorem withModelFallback_routing:
  fixes primaryFn fallbackFn :: "string \<Rightarrow> 's \<Rightarrow> (jsval + 'a) \<times> 's" and s :: 's
  defines "p \<equiv> withRetry (primaryFn PRIMARY_MODEL) 1 1000 s"
  shows
  "(outcome p = Inl e \<and> classify e = Inr Transient
      \<longrightarrow> withModelFallback primaryFn (Some fallbackFn) s
          = (let f = withRetry (fallbackFn FALLBACK_MODEL) 3 2000 (final p)
             in f\<lparr>delays := delays p @ delays f\<rparr>))
   \<and> (outcome p = Inl e \<and> classify e = Inr Transient
       \<and> fallbackFn FALLBACK_MODEL (final p) = (Inr v, s2)
      \<longrightarrow> withModelFallback primaryFn (Some fallbackFn) s
          = \<lparr>outcome = Inr v, delays = delays p, final = s2\<rparr>)
   \<and> (outcome p = Inl e \<and> classify e = Inr Fatal
      \<longrightarrow> withModelFallback primaryFn (Some fallbackFn) s = p
          \<and> outcome (withModelFallback primaryFn (Some fallbackFn) s) = Inl e)
   \<and> (primaryFn PRIMARY_MODEL s = (Inl e, s1) \<and> classify e = Inr Fatal
      \<longrightarrow> withModelFallback primaryFn (Some fallbackFn) s
          = \<lparr>outcome = Inl e, delays = [], final = s1\<rparr>)
   \<and> withModelFallback primaryFn None s = withModelFallback primaryFn (Some primaryFn) s"
proof (intro conjI impI)
  assume a: "outcome p = Inl e \<and> classify e = Inr Transient"
  then show "withModelFallback primaryFn (Some fallbackFn) s
          = (let f = withRetry (fallbackFn FALLBACK_MODEL) 3 2000 (final p)
             in f\<lparr>delays := delays p @ delays f\<rparr>)"
    unfolding p_def
    by (auto simp: withModelFallback_def Let_def classify_def split: sum.splits if_splits)
next
  assume a: "outcome p = Inl e \<and> classify e = Inr Transient
       \<and> fallbackFn FALLBACK_MODEL (final p) = (Inr v, s2)"
  then have "withRetry (fallbackFn FALLBACK_MODEL) 3 2000 (final p)
      = \<lparr>outcome = Inr v, delays = [], final = s2\<rparr>"
    by (simp add: withRetry_ok)
  with a show "withModelFallback primaryFn (Some fallbackFn) s
          = \<lparr>outcome = Inr v, delays = delays p, final = s2\<rparr>"
    unfolding p_def
    by (auto simp: withModelFallback_def Let_def classify_def split: sum.splits if_splits)
next
  assume a: "outcome p = Inl e \<and> classify e = Inr Fatal"
  then show r: "withModelFallback primaryFn (Some fallbackFn) s = p"
    unfolding p_def
    by (auto simp: withModelFallback_def Let_def classify_def split: sum.splits if_splits)
  from a show "outcome (withModelFallback primaryFn (Some fallbackFn) s) = Inl e"
    by (simp add: r)
next
  assume a: "primaryFn PRIMARY_MODEL s = (Inl e, s1) \<and> classify e = Inr Fatal"
  then have "withRetry (primaryFn PRIMARY_MODEL) 1 1000 s
      = \<lparr>outcome = Inl e, delays = [], final = s1\<rparr>"
    by (simp add: withRetry_fatal)
  with a show "withModelFallback primaryFn (Some fallbackFn) s
          = \<lparr>outcome = Inl e, delays = [], final = s1\<rparr>"
    by (auto simp: withModelFallback_def Let_def classify_def split: sum.splits if_splits)
next
  show "withModelFallback primaryFn None s = withModelFallback primaryFn (Some primaryFn) s"
    by (simp add: withModelFallback_def)
qed

theorem withModelFallback_routing_witness:
  "withModelFallback (failing_primary 503) (Some good_fallback) (0, 0)
     = \<lparr>outcome = Inr FALLBACK_MODEL, delays = [1000], final = (2, 1)\<rparr>
   \<and> withModelFallback (failing_primary 400) (Some good_fallback) (0, 0)
     = \<lparr>outcome = Inl (JObj [(''status'', JNum 400)]), delays = [], final = (1, 0)\<rparr>"
proof -
  have t: "classify (JObj [(''status'', JNum 503)]) = Inr Transient"
    by (simp add: classify_def isQuotaError_def getp_def)
  have f: "classify (JObj [(''status'', JNum 400)]) = Inr Fatal"
    by (simp add: classify_def isQuotaError_def getp_def)
  have p: "withRetry (failing_primary 503 PRIMARY_MODEL) 1 1000 (0, 0)
      = \<lparr>outcome = Inl (JObj [(''status'', JNum 503)]), delays = [1000], final = (2, 0)\<rparr>"
    using t
    by (simp add: withRetry_again [where e = "JObj [(''status'', JNum 503)]" and ?s1.0 = "(1, 0)"]
        withRetry_exhausted [where e = "JObj [(''status'', JNum 503)]" and ?s1.0 = "(2, 0)"]
        failing_primary_def)
  have "withModelFallback (failing_primary 503) (Some good_fallback) (0, 0)
     = \<lparr>outcome = Inr FALLBACK_MODEL, delays = [1000], final = (2, 1)\<rparr>"
    using t p
      withModelFallback_routing
        [of "failing_primary 503" "(0, 0)" "JObj [(''status'', JNum 503)]" good_fallback
          FALLBACK_MODEL "(2, 1)", THEN conjunct2, THEN conjunct1]
    by (simp add: good_fallback_def)
  moreover have "withModelFallback (failing_primary 400) (Some good_fallback) (0, 0)
     = \<lparr>outcome = Inl (JObj [(''status'', JNum 400)]), delays = [], final = (1, 0)\<rparr>"
    using f
      withModelFallback_routing
        [of "failing_primary 400" "(0, 0)" "JObj [(''status'', JNum 400)]" good_fallback
          _ _ "(1, 0)", THEN conjunct2, THEN conjunct2, THEN conjunct2, THEN conjunct1]
    by (simp add: failing_primary_def)
  ultimately show ?thesis by blast
qed


section \<open>Properties of the extractor\<close>

lemma not_space_tick: "\<not> is_space (CHR 0x60)"
  by (simp add: is_space_def)

lemma drop_takeWhile_length: "drop (length (takeWhile P xs)) xs = dropWhile P xs"
  by (induction xs) auto

lemma closes_iff: "closes s \<longleftrightarrow> prefix fence (dropWhile is_space s)"
proof
  assume "closes s"
  then obtain k where k: "k \<le> length (takeWhile is_space s)" "prefix fence (drop k s)"
    unfolding closes_def ws_choices_def list_ex_iff
    by (auto simp del: upt_Suc simp: less_Suc_eq_le)
  have "\<not> k < length (takeWhile is_space s)"
  proof
    assume lt: "k < length (takeWhile is_space s)"
    then have sp: "is_space (s ! k)"
      by (metis nth_mem set_takeWhileD takeWhile_nth)
    have "k < length s"
      using lt length_takeWhile_le [of is_space s] by (meson less_le_trans)
    then have "drop k s = s ! k # drop (Suc k) s"
      by (simp add: Cons_nth_drop_Suc)
    with k(2) have "s ! k = CHR 0x60" by (simp add: fence_def)
    with sp show False by (simp add: not_space_tick)
  qed
  with k(1) have "k = length (takeWhile is_space s)" by simp
  with k(2) show "prefix fence (dropWhile is_space s)"
    by (simp add: drop_takeWhile_length)
next
  assume "prefix fence (dropWhile is_space s)"
  then have "prefix fence (drop (length (takeWhile is_space s)) s)"
    by (simp add: drop_takeWhile_length)
  then show "closes s"
    unfolding closes_def ws_choices_def list_ex_iff
    by (auto simp del: upt_Suc intro!: bexI [of _ "length (takeWhile is_space s)"])
qed

lemma dropWhile_append_keep:
  "ys \<noteq> [] \<Longrightarrow> \<not> P (hd ys) \<Longrightarrow> dropWhile P (xs @ ys) = dropWhile P xs @ ys"
  by (induction xs) (auto simp: neq_Nil_conv)

lemma prefix_fence_shift:
  "ys \<noteq> [] \<Longrightarrow> prefix fence (ys @ fence @ post) \<Longrightarrow> prefix fence (ys @ [CHR 0x60, CHR 0x60])"
proof -
  assume a: "ys \<noteq> []" "prefix fence (ys @ fence @ post)"
  consider a1 where "ys = [a1]" | a1 a2 where "ys = [a1, a2]"
    | a1 a2 a3 r where "ys = a1 # a2 # a3 # r"
    using a(1) by (metis list.exhaust)
  then show ?thesis
    using a(2) by cases (auto simp: fence_def)
qed

lemma rtrim_Cons:
  "rtrim (c # cs) = (if list_all is_space (c # cs) then [] else c # rtrim cs)"
  by (auto simp: rtrim_def dropWhile_append list_all_iff)

lemma lazy_group_first:
  "\<not> sublist fence (m @ [CHR 0x60, CHR 0x60])
   \<Longrightarrow> lazy_group (m @ fence @ post) = Some (rtrim m)"
proof (induction m)
  case Nil
  have "closes (fence @ post)"
    by (simp add: closes_iff fence_def not_space_tick)
  then show ?case
    by (simp add: fence_def rtrim_def)
next
  case (Cons c cs)
  have nf: "\<not> sublist fence (cs @ [CHR 0x60, CHR 0x60])"
    using Cons.prems by (auto simp: sublist_Cons_right)
  have ne: "fence @ post \<noteq> []" "\<not> is_space (hd (fence @ post))"
    by (simp_all add: fence_def not_space_tick)
  show ?case
  proof (cases "list_all is_space (c # cs)")
    case True
    then have "dropWhile is_space ((c # cs) @ fence @ post) = fence @ post"
      using ne dropWhile_append_keep [where ys = "fence @ post" and P = is_space and xs = "c # cs"]
      by (simp add: list_all_iff)
    then have "closes ((c # cs) @ fence @ post)"
      by (simp add: closes_iff)
    with True show ?thesis by (simp add: rtrim_Cons)
  next
    case False
    then have d: "dropWhile is_space (c # cs) \<noteq> []"
      by (auto simp: list_all_iff)
    have "\<not> closes ((c # cs) @ fence @ post)"
    proof
      assume "closes ((c # cs) @ fence @ post)"
      then have "prefix fence (dropWhile is_space (c # cs) @ fence @ post)"
        using ne dropWhile_append_keep [where ys = "fence @ post" and P = is_space and xs = "c # cs"]
        by (simp add: closes_iff)
      then have "prefix fence (dropWhile is_space (c # cs) @ [CHR 0x60, CHR 0x60])"
        using d prefix_fence_shift by blast
      then have "sublist fence (dropWhile is_space (c # cs) @ [CHR 0x60, CHR 0x60])"
        by (rule prefix_imp_sublist)
      moreover have "suffix (dropWhile is_space (c # cs) @ [CHR 0x60, CHR 0x60])
          ((c # cs) @ [CHR 0x60, CHR 0x60])"
        by (simp only: same_suffix_suffix suffix_dropWhile)
      ultimately have "sublist fence ((c # cs) @ [CHR 0x60, CHR 0x60])"
        using suffix_imp_sublist sublist_order.order_trans by blast
      with Cons.prems show False by simp
    qed
    with False Cons.IH [OF nf] show ?thesis
      by (simp add: rtrim_Cons)
  qed
qed


lemma ws_choices_first:
  "ws_choices s = dropWhile is_space s # map (\<lambda>k. drop k s) (rev [0..<length (takeWhile is_space s)])"
  by (simp add: ws_choices_def drop_takeWhile_length)

lemma ws_group_first:
  assumes "\<not> sublist fence (m @ [CHR 0x60, CHR 0x60])"
  shows "first_some lazy_group (ws_choices (m @ fence @ post))
           = Some (rtrim (dropWhile is_space m))"
proof -
  have ne: "fence @ post \<noteq> []" "\<not> is_space (hd (fence @ post))"
    by (simp_all add: fence_def not_space_tick)
  have d: "dropWhile is_space (m @ fence @ post) = dropWhile is_space m @ fence @ post"
    using ne dropWhile_append_keep [where ys = "fence @ post" and P = is_space and xs = m]
    by simp
  have "suffix (dropWhile is_space m @ [CHR 0x60, CHR 0x60]) (m @ [CHR 0x60, CHR 0x60])"
    by (simp add: suffix_dropWhile)
  then have "\<not> sublist fence (dropWhile is_space m @ [CHR 0x60, CHR 0x60])"
    using assms suffix_imp_sublist sublist_order.order_trans by blast
  then have "lazy_group (dropWhile is_space m @ fence @ post) = Some (rtrim (dropWhile is_space m))"
    by (rule lazy_group_first)
  then show ?thesis
    by (simp add: ws_choices_first d)
qed

lemma prefix_json_fence:
  "prefix ''json'' (m @ fence @ post) \<longleftrightarrow> prefix ''json'' m"
proof
  assume "prefix ''json'' (m @ fence @ post)"
  then have "prefix ''json'' m \<or> (\<exists>us. ''json'' = m @ us \<and> prefix us (fence @ post))"
    by (simp only: prefix_append [of _ m])
  then show "prefix ''json'' m"
  proof
    assume "prefix ''json'' m"
    then show ?thesis .
  next
    assume "\<exists>us. ''json'' = m @ us \<and> prefix us (fence @ post)"
    then obtain us where us: "''json'' = m @ us" "prefix us (fence @ post)" by blast
    show ?thesis
    proof (cases us)
      case Nil
      with us(1) show ?thesis by simp
    next
      case (Cons u r)
      with us(2) have "u = CHR 0x60" by (simp add: fence_def)
      moreover have "u \<in> set (m @ us)" using Cons by simp
      then have "u \<in> set ''json''" by (simp only: us(1))
      ultimately show ?thesis by simp
    qed
  qed
next
  assume "prefix ''json'' m"
  then show "prefix ''json'' (m @ fence @ post)"
    by (rule prefix_prefix)
qed

lemma after_open_first:
  assumes "\<not> sublist fence (m @ [CHR 0x60, CHR 0x60])"
  shows "after_open (m @ fence @ post)
           = Some (rtrim (dropWhile is_space (if prefix ''json'' m then drop 4 m else m)))"
proof (cases "prefix ''json'' m")
  case True
  then have l: "4 \<le> length m" by (auto simp: prefix_def)
  have "suffix (drop 4 m @ [CHR 0x60, CHR 0x60]) (m @ [CHR 0x60, CHR 0x60])"
    by (simp add: suffix_drop)
  then have "\<not> sublist fence (drop 4 m @ [CHR 0x60, CHR 0x60])"
    using assms suffix_imp_sublist sublist_order.order_trans by blast
  then have "first_some lazy_group (ws_choices (drop 4 m @ fence @ post))
           = Some (rtrim (dropWhile is_space (drop 4 m)))"
    by (rule ws_group_first)
  with True l show ?thesis
    by (simp add: after_open_def prefix_json_fence)
next
  case False
  with ws_group_first [OF assms, of post] show ?thesis
    by (simp add: after_open_def prefix_json_fence)
qed

lemma fence_match_skip:
  "\<not> sublist fence (pre @ [CHR 0x60, CHR 0x60])
   \<Longrightarrow> fence_match (pre @ fence @ rest) = fence_match (fence @ rest)"
proof (induction pre)
  case Nil
  show ?case by simp
next
  case (Cons c cs)
  have nf: "\<not> sublist fence (cs @ [CHR 0x60, CHR 0x60])"
    using Cons.prems by (auto simp: sublist_Cons_right)
  have "\<not> prefix fence ((c # cs) @ fence @ rest)"
  proof
    assume "prefix fence ((c # cs) @ fence @ rest)"
    then have "prefix fence ((c # cs) @ [CHR 0x60, CHR 0x60])"
      using prefix_fence_shift by blast
    then show False
      using Cons.prems prefix_imp_sublist by blast
  qed
  with Cons.IH [OF nf] show ?case by simp
qed

lemma fence_match_open:
  "after_open rest = Some g \<Longrightarrow> fence_match (fence @ rest) = Some g"
  by (simp add: fence_def)

lemma fence_match_first_block:
  assumes "\<not> sublist fence (pre @ [CHR 0x60, CHR 0x60])"
    and "\<not> sublist fence (mid @ [CHR 0x60, CHR 0x60])"
  shows "fence_match (pre @ fence @ mid @ fence @ post)
           = Some (rtrim (dropWhile is_space (if prefix ''json'' mid then drop 4 mid else mid)))"
  using fence_match_skip [OF assms(1), of "mid @ fence @ post"]
    fence_match_open [OF after_open_first [OF assms(2), of post]]
  by simp

lemma trim_rtrim_ltrim: "trim (rtrim (dropWhile is_space s)) = trim s"
proof -
  have "dropWhile is_space (rtrim (dropWhile is_space s)) = rtrim (dropWhile is_space s)"
  proof (cases "dropWhile is_space s")
    case Nil
    show ?thesis unfolding Nil by (simp add: rtrim_def)
  next
    case (Cons x xs)
    then have x: "\<not> is_space x" by (metis hd_dropWhile list.sel(1) list.distinct(1))
    show ?thesis unfolding Cons using x by (simp add: rtrim_Cons)
  qed
  then show ?thesis
    by (simp add: trim_def rtrim_def)
qed

lemma closes_sublist: "closes s \<Longrightarrow> sublist fence s"
proof -
  assume "closes s"
  then have "prefix fence (dropWhile is_space s)" by (simp add: closes_iff)
  then have "sublist fence (dropWhile is_space s)" by (rule prefix_imp_sublist)
  moreover have "sublist (dropWhile is_space s) s"
    by (simp add: suffix_dropWhile suffix_imp_sublist)
  ultimately show ?thesis by (rule sublist_order.order_trans)
qed

lemma lazy_group_sublist: "lazy_group s = Some g \<Longrightarrow> sublist fence s"
proof (induction s arbitrary: g)
  case Nil
  then show ?case by (simp add: closes_iff fence_def split: if_splits)
next
  case (Cons c cs)
  show ?case
  proof (cases "closes (c # cs)")
    case True
    then show ?thesis by (rule closes_sublist)
  next
    case False
    with Cons.prems obtain g' where "lazy_group cs = Some g'" by auto
    then have "sublist fence cs" by (rule Cons.IH)
    then show ?thesis by (simp add: sublist_Cons_right)
  qed
qed

lemma first_some_SomeD: "first_some f xs = Some y \<Longrightarrow> \<exists>x\<in>set xs. f x = Some y"
  by (induction xs) (auto split: option.splits)

lemma ws_group_sublist:
  "first_some lazy_group (ws_choices t) = Some g \<Longrightarrow> sublist fence t"
proof -
  assume "first_some lazy_group (ws_choices t) = Some g"
  from first_some_SomeD [OF this]
  obtain x where x: "x \<in> set (ws_choices t)" "lazy_group x = Some g"
    by blast
  then obtain k where "x = drop k t" by (auto simp: ws_choices_def)
  then have "sublist x t" by (simp add: suffix_drop suffix_imp_sublist)
  with lazy_group_sublist [OF x(2)] show ?thesis
    using sublist_order.order_trans by blast
qed

lemma after_open_sublist: "after_open s = Some g \<Longrightarrow> sublist fence s"
proof -
  assume "after_open s = Some g"
  then have "\<exists>t\<in>set ((if prefix ''json'' s then [drop 4 s] else []) @ [s]).
      first_some lazy_group (ws_choices t) = Some g"
    unfolding after_open_def by (rule first_some_SomeD)
  then obtain t where t: "t = drop 4 s \<or> t = s" "first_some lazy_group (ws_choices t) = Some g"
    by (auto split: if_splits)
  then have "sublist t s" by (auto simp: suffix_drop suffix_imp_sublist)
  with ws_group_sublist [OF t(2)] show ?thesis
    using sublist_order.order_trans by blast
qed

lemma fence_match_fenced:
  "fence_match inp = Some g \<Longrightarrow> \<exists>pre mid post. inp = pre @ fence @ mid @ fence @ post"
proof (induction inp)
  case Nil
  then show ?case by simp
next
  case (Cons c cs)
  show ?case
  proof (cases "prefix fence (c # cs) \<and> after_open (drop 3 (c # cs)) \<noteq> None")
    case True
    then obtain r where r: "c # cs = fence @ r" by (auto simp: prefix_def)
    then have "drop 3 (c # cs) = r" by (simp add: fence_def)
    with True have "sublist fence r" using after_open_sublist by auto
    then obtain mid post where "r = mid @ fence @ post" by (auto simp: sublist_def)
    with r have "c # cs = [] @ fence @ mid @ fence @ post" by simp
    then show ?thesis by blast
  next
    case False
    with Cons.prems have "fence_match cs = Some g" by (auto split: if_splits option.splits)
    then obtain pre mid post where "cs = pre @ fence @ mid @ fence @ post"
      using Cons.IH by blast
    then have "c # cs = (c # pre) @ fence @ mid @ fence @ post" by simp
    then show ?thesis by blast
  qed
qed

lemma search_class_first:
  "\<forall>x\<in>set a. \<not> P x \<Longrightarrow> P y \<Longrightarrow> search_class P (a @ y # r) = Some (length a)"
  by (induction a) auto

lemma search_class_none: "\<forall>x\<in>set a. \<not> P x \<Longrightarrow> search_class P a = None"
  by (induction a) auto

lemma lastIndexOf_last:
  "c \<notin> set z \<Longrightarrow> lastIndexOf (b @ c # z) c = Some (length b)"
proof -
  assume "c \<notin> set z"
  then have "search_class (\<lambda>x. x = c) (rev z @ c # rev b) = Some (length z)"
    using search_class_first [of "rev z" "\<lambda>x. x = c" c "rev b"] by auto
  then show ?thesis by (simp add: lastIndexOf_def)
qed

lemma lastIndexOf_none: "c \<notin> set s \<Longrightarrow> lastIndexOf s c = None"
proof -
  assume "c \<notin> set s"
  then have "\<forall>x\<in>set (rev s). \<not> x = c" by auto
  then have "search_class (\<lambda>x. x = c) (rev s) = None" by (rule search_class_none)
  then show ?thesis by (simp add: lastIndexOf_def)
qed


lemma fence_match_none:
  "\<not> (\<exists>p m q. inp = p @ fence @ m @ fence @ q) \<Longrightarrow> fence_match inp = None"
proof (cases "fence_match inp")
  case None
  then show ?thesis .
next
  case (Some g)
  assume "\<not> (\<exists>p m q. inp = p @ fence @ m @ fence @ q)"
  with fence_match_fenced [OF Some] show ?thesis by blast
qed

lemma extractJson_fenced:
  assumes "\<not> sublist fence (pre @ [CHR 0x60, CHR 0x60])"
    and "\<not> sublist fence (mid @ [CHR 0x60, CHR 0x60])"
  shows "extractJson (pre @ fence @ mid @ fence @ post)
      = trim (if prefix ''json'' mid then drop 4 mid else mid)"
  using fence_match_first_block [OF assms, of post]
  by (simp add: extractJson_def trim_rtrim_ltrim)

lemma extractJson_braces:
  assumes nf: "fence_match inp = None"
    and inp: "inp = a @ [opn] @ b @ [cls] @ z"
    and a: "\<forall>x\<in>set a. \<not> is_open x"
    and oc: "(opn = CHR ''{'' \<and> cls = CHR ''}'') \<or> (opn = CHR ''['' \<and> cls = CHR '']'')"
    and z: "cls \<notin> set z"
  shows "extractJson inp = [opn] @ b @ [cls]"
proof -
  have "is_open opn" using oc by (auto simp: is_open_def)
  then have "search_class is_open (a @ opn # (b @ [cls] @ z)) = Some (length a)"
    using a by (rule search_class_first [rotated])
  then have fo: "search_class is_open inp = Some (length a)"
    by (simp add: inp)
  have at: "inp ! length a = opn" by (simp add: inp)
  have "lastIndexOf ((a @ [opn] @ b) @ cls # z) cls = Some (length (a @ [opn] @ b))"
    using z by (rule lastIndexOf_last)
  then have li: "lastIndexOf inp cls = Some (length a + 1 + length b)"
    by (simp add: inp)
  have su: "substring inp (length a) (length a + 1 + length b + 1) = [opn] @ b @ [cls]"
    by (simp add: substring_def inp)
  from oc show ?thesis
  proof
    assume "opn = CHR ''{'' \<and> cls = CHR ''}''"
    then show ?thesis using nf fo at li su by (simp add: extractJson_def)
  next
    assume "opn = CHR ''['' \<and> cls = CHR '']''"
    then show ?thesis using nf fo at li su by (simp add: extractJson_def)
  qed
qed

lemma extractJson_unclosed:
  assumes nf: "fence_match inp = None"
    and inp: "inp = a @ [opn] @ b"
    and a: "\<forall>x\<in>set a. \<not> is_open x"
    and oc: "(opn = CHR ''{'' \<and> cls = CHR ''}'') \<or> (opn = CHR ''['' \<and> cls = CHR '']'')"
    and z: "cls \<notin> set inp"
  shows "extractJson inp = trim inp"
proof -
  have "is_open opn" using oc by (auto simp: is_open_def)
  then have "search_class is_open (a @ opn # b) = Some (length a)"
    using a by (rule search_class_first [rotated])
  then have fo: "search_class is_open inp = Some (length a)"
    by (simp add: inp)
  have at: "inp ! length a = opn" by (simp add: inp)
  have li: "lastIndexOf inp cls = None"
    using z by (rule lastIndexOf_none)
  from oc show ?thesis
  proof
    assume "opn = CHR ''{'' \<and> cls = CHR ''}''"
    then show ?thesis using nf fo at li by (simp add: extractJson_def)
  next
    assume "opn = CHR ''['' \<and> cls = CHR '']''"
    then show ?thesis using nf fo at li by (simp add: extractJson_def)
  qed
qed

lemma extractJson_plain:
  assumes nf: "fence_match inp = None"
    and a: "\<forall>x\<in>set inp. \<not> is_open x"
  shows "extractJson inp = trim inp"
proof -
  have "search_class is_open inp = None"
    using a by (rule search_class_none)
  then show ?thesis
    unfolding extractJson_def nf by simp
qed

lemma no_tick_no_fence:
  "CHR 0x60 \<notin> set inp \<Longrightarrow> \<not> (\<exists>p m q. inp = p @ fence @ m @ fence @ q)"
  by (auto simp: fence_def)

text \<open>
  C4, as the code has it. \<^verbatim>\<open>extractJson\<close> is a total function on strings, and:
  \<^enum> if the text holds a fenced block, the result is the trimmed interior of the first
    one, without a leading \<^verbatim>\<open>json\<close> tag: the opening fence is the first run of three
    backticks, the closing fence the first one after it;
  \<^enum> otherwise, if the text holds \<^verbatim>\<open>{\<close> or \<^verbatim>\<open>[\<close> and the matching closing character
    occurs after the first of them, the result is the substring from that opening
    character to the last occurrence of the closing character, both included;
  \<^enum> otherwise, if the text holds \<^verbatim>\<open>{\<close> or \<^verbatim>\<open>[\<close> and the matching closing character
    occurs nowhere, the result is the trimmed text;
  \<^enum> otherwise, if the text holds neither \<^verbatim>\<open>{\<close> nor \<^verbatim>\<open>[\<close>, the result is the trimmed text.

  A text in which the matching closing character occurs only before the first opening
  character is not covered.
\<close>

theorem extractJson_steps:
  "(\<not> sublist fence (pre @ [CHR 0x60, CHR 0x60]) \<and> \<not> sublist fence (mid @ [CHR 0x60, CHR 0x60])
      \<longrightarrow> extractJson (pre @ fence @ mid @ fence @ post)
          = trim (if prefix ''json'' mid then drop 4 mid else mid))
   \<and> (\<not> (\<exists>p m q. inp = p @ fence @ m @ fence @ q)
       \<and> inp = a @ [opn] @ b @ [cls] @ z
       \<and> (\<forall>x\<in>set a. \<not> is_open x)
       \<and> ((opn = CHR ''{'' \<and> cls = CHR ''}'') \<or> (opn = CHR ''['' \<and> cls = CHR '']''))
       \<and> cls \<notin> set z
      \<longrightarrow> extractJson inp = [opn] @ b @ [cls])
   \<and> (\<not> (\<exists>p m q. inp = p @ fence @ m @ fence @ q)
       \<and> inp = a @ [opn] @ b
       \<and> (\<forall>x\<in>set a. \<not> is_open x)
       \<and> ((opn = CHR ''{'' \<and> cls = CHR ''}'') \<or> (opn = CHR ''['' \<and> cls = CHR '']''))
       \<and> cls \<notin> set inp
      \<longrightarrow> extractJson inp = trim inp)
   \<and> (\<not> (\<exists>p m q. inp = p @ fence @ m @ fence @ q)
       \<and> (\<forall>x\<in>set inp. \<not> is_open x)
      \<longrightarrow> extractJson inp = trim inp)"
  using extractJson_fenced [of pre mid post]
    extractJson_braces [OF fence_match_none, of inp a opn b cls z]
    extractJson_unclosed [OF fence_match_none, of inp a opn b cls]
    extractJson_plain [OF fence_match_none, of inp]
  by blast

text \<open>
  The two examples of the specification, and one input for each of the other two cases.
\<close>

theorem extractJson_steps_witness:
  "extractJson (''Here:'' @ [CHR 0x0A] @ fence @ (''json'' @ [CHR 0x0A] @ ''[1,2,3]'' @ [CHR 0x0A])
                 @ fence @ [CHR 0x0A]) = ''[1,2,3]''
   \<and> extractJson (''prefix {'' @ [CHR 0x22] @ ''a'' @ [CHR 0x22] @ '':1} suffix'')
       = ''{'' @ [CHR 0x22] @ ''a'' @ [CHR 0x22] @ '':1}''
   \<and> extractJson '' [1, 2'' = ''[1, 2''
   \<and> extractJson ''  no json here '' = ''no json here''"
proof -
  have f1: "\<not> sublist fence ((''Here:'' @ [CHR 0x0A]) @ [CHR 0x60, CHR 0x60])"
    by (simp add: includes_str_sublist [symmetric] fence_def)
  have f2: "\<not> sublist fence ((''json'' @ [CHR 0x0A] @ ''[1,2,3]'' @ [CHR 0x0A]) @ [CHR 0x60, CHR 0x60])"
    by (simp add: includes_str_sublist [symmetric] fence_def)
  have t: "trim (drop 4 (''json'' @ [CHR 0x0A] @ ''[1,2,3]'' @ [CHR 0x0A])) = ''[1,2,3]''"
    by (simp add: trim_def is_space_def)
  have w1: "extractJson (''Here:'' @ [CHR 0x0A] @ fence @ (''json'' @ [CHR 0x0A] @ ''[1,2,3]'' @ [CHR 0x0A])
                 @ fence @ [CHR 0x0A]) = ''[1,2,3]''"
    using f1 f2 t
      extractJson_steps [of "''Here:'' @ [CHR 0x0A]" "''json'' @ [CHR 0x0A] @ ''[1,2,3]'' @ [CHR 0x0A]"
        "[CHR 0x0A]", THEN conjunct1]
    by simp
  let ?i2 = "''prefix {'' @ [CHR 0x22] @ ''a'' @ [CHR 0x22] @ '':1} suffix''"
  have n2: "\<not> (\<exists>p m q. ?i2 = p @ fence @ m @ fence @ q)"
    by (rule no_tick_no_fence) simp
  have "extractJson ?i2 = [CHR ''{''] @ ([CHR 0x22] @ ''a'' @ [CHR 0x22] @ '':1'') @ [CHR ''}'']"
    by (rule extractJson_steps [of _ _ _ ?i2 "''prefix ''" "CHR ''{''"
          "[CHR 0x22] @ ''a'' @ [CHR 0x22] @ '':1''" "CHR ''}''" "'' suffix''",
          THEN conjunct2, THEN conjunct1, THEN mp])
      (insert n2, simp add: is_open_def)
  then have w2: "extractJson ?i2 = ''{'' @ [CHR 0x22] @ ''a'' @ [CHR 0x22] @ '':1}''"
    by simp
  have n3: "\<not> (\<exists>p m q. '' [1, 2'' = p @ fence @ m @ fence @ q)"
    by (rule no_tick_no_fence) simp
  have "extractJson '' [1, 2'' = trim '' [1, 2''"
    by (rule extractJson_steps [of _ _ _ "'' [1, 2''" "'' ''" "CHR ''[''" "''1, 2''" "CHR '']''",
          THEN conjunct2, THEN conjunct2, THEN conjunct1, THEN mp])
      (insert n3, simp add: is_open_def)
  then have w3: "extractJson '' [1, 2'' = ''[1, 2''"
    by (simp add: trim_def is_space_def)
  have n4: "\<not> (\<exists>p m q. ''  no json here '' = p @ fence @ m @ fence @ q)"
    by (rule no_tick_no_fence) simp
  have "extractJson ''  no json here '' = trim ''  no json here ''"
    by (rule extractJson_steps [of _ _ _ "''  no json here ''",
          THEN conjunct2, THEN conjunct2, THEN conjunct2, THEN mp])
      (insert n4, simp add: is_open_def)
  then have w4: "extractJson ''  no json here '' = ''no json here''"
    by (simp add: trim_def is_space_def)
  from w1 w2 w3 w4 show ?thesis by blast
qed

text \<open>
  Where the claim's second step does not describe the code: \<^verbatim>\<open>"{ x"\<close> holds an opening
  character and no closing one; the test \<^verbatim>\<open>lastIndex !== -1\<close> fails and the result is the
  trimmed text, which holds no closing character and is therefore no substring ending in
  one.
\<close>

theorem extractJson_unclosed_opener:
  "search_class is_open ''{ x'' = Some 0
   \<and> lastIndexOf ''{ x'' (CHR ''}'') = None
   \<and> extractJson ''{ x'' = ''{ x''
   \<and> CHR ''}'' \<notin> set (extractJson ''{ x'')"
proof -
  have 5: "fence_match ''{ x'' = None"
    by (rule fence_match_none [OF no_tick_no_fence]) simp
  have 6: "''{ x'' = [] @ [CHR ''{''] @ '' x''" by simp
  have "extractJson ''{ x'' = trim ''{ x''"
    by (rule extractJson_unclosed [OF 5 6, of "CHR ''}''"]) simp_all
  then have b: "extractJson ''{ x'' = ''{ x''"
    by (simp add: trim_def is_space_def)
  have c: "search_class is_open ''{ x'' = Some 0" by (simp add: is_open_def)
  have d: "lastIndexOf ''{ x'' (CHR ''}'') = None" by (simp add: lastIndexOf_def)
  from b c d show ?thesis by simp
qed

section \<open>Properties of the webhook normalizers\<close>

lemma cannot_read_null:
  "cannot_read JNull k = TypeError (''Cannot read properties of null (reading '' @ quoted k @ '')'')"
  by (simp add: cannot_read_def)

lemma cannot_read_undefined:
  "cannot_read JUndefined k
     = TypeError (''Cannot read properties of undefined (reading '' @ quoted k @ '')'')"
  by (simp add: cannot_read_def)

text \<open>
  C9. For \<^verbatim>\<open>url_map\<close>, \<^verbatim>\<open>page_ranked_keywords\<close> and \<^verbatim>\<open>suggested_keywords\<close>, a response that is a
  non-empty array is handled by running the function's normalizer on its first element
  \<open>x\<close>; the other elements are not read, so the response \<open>[x, ...]\<close> gives what \<open>[x]\<close> gives.
  When \<open>x\<close> is not itself a non-empty array, that is also what the response \<open>x\<close> gives (a
  response that is a non-empty array is unwrapped once, whatever surrounds it).
\<close>

theorem first_element_unwrapping:
  "process_response toUpperCase url_map (JArr (x # rest)) = normalize_links toUpperCase x
   \<and> process_response toUpperCase page_ranked_keywords (JArr (x # rest)) = normalize_ranked x
   \<and> process_response toUpperCase suggested_keywords (JArr (x # rest)) = normalize_suggested x
   \<and> (func \<noteq> url_scrape
        \<longrightarrow> process_response toUpperCase func (JArr (x # rest)) = process_response toUpperCase func (JArr [x]))
   \<and> (func \<noteq> url_scrape \<and> (\<forall>y ys. x \<noteq> JArr (y # ys))
        \<longrightarrow> process_response toUpperCase func (JArr (x # rest)) = process_response toUpperCase func x)"
proof (intro conjI impI)
  show "process_response toUpperCase url_map (JArr (x # rest)) = normalize_links toUpperCase x"
    by (simp add: process_response_def first_element_def)
  show "process_response toUpperCase page_ranked_keywords (JArr (x # rest)) = normalize_ranked x"
    by (simp add: process_response_def first_element_def)
  show "process_response toUpperCase suggested_keywords (JArr (x # rest)) = normalize_suggested x"
    by (simp add: process_response_def first_element_def)
next
  assume "func \<noteq> url_scrape"
  then show "process_response toUpperCase func (JArr (x # rest)) = process_response toUpperCase func (JArr [x])"
    by (cases func) (simp_all add: process_response_def first_element_def)
next
  assume a: "func \<noteq> url_scrape \<and> (\<forall>y ys. x \<noteq> JArr (y # ys))"
  then have "first_element x = x"
    by (auto simp: first_element_def split: jsval.splits list.splits)
  with a show "process_response toUpperCase func (JArr (x # rest)) = process_response toUpperCase func x"
    by (cases func) (simp_all add: process_response_def first_element_def)
qed

theorem first_element_unwrapping_witness:
  "process_response id page_ranked_keywords
      (JArr [JObj [(''ranked_keywords'', JArr [JObj [(''keyword'', JStr ''seo'')]])], JNull])
     = process_response id page_ranked_keywords
         (JObj [(''ranked_keywords'', JArr [JObj [(''keyword'', JStr ''seo'')]])])
   \<and> process_response id page_ranked_keywords
      (JArr [JObj [(''ranked_keywords'', JArr [JObj [(''keyword'', JStr ''seo'')]])], JNull])
     = process_response id page_ranked_keywords
         (JArr [JObj [(''ranked_keywords'', JArr [JObj [(''keyword'', JStr ''seo'')]])]])"
proof -
  let ?x = "JObj [(''ranked_keywords'', JArr [JObj [(''keyword'', JStr ''seo'')]])]"
  have h: "page_ranked_keywords \<noteq> url_scrape \<and> (\<forall>y ys. ?x \<noteq> JArr (y # ys))" by simp
  have a: "process_response id page_ranked_keywords (JArr [?x, JNull])
      = process_response id page_ranked_keywords ?x"
    by (rule first_element_unwrapping
        [THEN conjunct2, THEN conjunct2, THEN conjunct2, THEN conjunct2, THEN mp, OF h])
  have b: "process_response id page_ranked_keywords (JArr [?x, JNull])
      = process_response id page_ranked_keywords (JArr [?x])"
    by (rule first_element_unwrapping
        [THEN conjunct2, THEN conjunct2, THEN conjunct2, THEN conjunct1, THEN mp]) simp
  show ?thesis by (rule conjI [OF a b])
qed

lemma map_exn_related:
  "list_all (\<lambda>kw. \<not> nullish kw
                 \<and> (if truthy (get_prop kw ''Keyword'')
                     then get_prop kw ''keyword'' = get_prop kw ''Keyword''
                     else truthy (get_prop kw ''keyword'') \<or> \<not> truthy kw)) xs
   \<Longrightarrow> (case map_exn (\<lambda>kw. getp kw ''keyword'') xs of
          Inl e \<Rightarrow> Inl e | Inr ks \<Rightarrow> Inr (JArr (filter truthy ks)))
       = (case map_exn suggested_item xs of
          Inl e \<Rightarrow> Inl e | Inr ks \<Rightarrow> Inr (JArr (filter truthy ks)))"
proof -
  assume a: "list_all (\<lambda>kw. \<not> nullish kw
                 \<and> (if truthy (get_prop kw ''Keyword'')
                     then get_prop kw ''keyword'' = get_prop kw ''Keyword''
                     else truthy (get_prop kw ''keyword'') \<or> \<not> truthy kw)) xs"
  then have 1: "map_exn (\<lambda>kw. getp kw ''keyword'') xs = Inr (map (\<lambda>kw. get_prop kw ''keyword'') xs)"
    by (induction xs) (auto simp: getp_def)
  from a have 2: "map_exn suggested_item xs
      = Inr (map (\<lambda>kw. js_or (js_or (get_prop kw ''Keyword'') (get_prop kw ''keyword'')) kw) xs)"
    by (induction xs) (auto simp: suggested_item_def)
  from a have 3: "filter truthy (map (\<lambda>kw. get_prop kw ''keyword'') xs)
      = filter truthy
          (map (\<lambda>kw. js_or (js_or (get_prop kw ''Keyword'') (get_prop kw ''keyword'')) kw) xs)"
    by (induction xs) (auto simp: js_or_def split: if_splits)
  show ?thesis by (simp add: 1 2 3)
qed

lemma get_prop_array_obj: "get_prop w k = JArr xs \<Longrightarrow> truthy w \<and> \<not> nullish w \<and> \<not> isArray w"
  by (cases w) auto

lemma first_element_object: "get_prop w k = JArr xs \<Longrightarrow> first_element w = w"
  by (cases w) (auto simp: first_element_def)

text \<open>
  C7, as the code has it. The normalizers work on \<^verbatim>\<open>data\<close>, which is the parsed response,
  or its first element when the response is a non-empty array. For an array \<open>xs\<close>: the
  ranked-keyword normalizer gives the same on a \<^verbatim>\<open>data\<close> that holds \<open>xs\<close> under
  \<^verbatim>\<open>ranked_keywords\<close> as on the \<^verbatim>\<open>data\<close> \<open>xs\<close>; the suggested-keyword normalizer gives the same
  on a \<^verbatim>\<open>data\<close> that holds \<open>xs\<close> under \<^verbatim>\<open>suggested_keywords\<close> (and no array under
  \<^verbatim>\<open>related_keyword\<close>) as on the \<^verbatim>\<open>data\<close> \<open>xs\<close>. Under \<^verbatim>\<open>related_keyword\<close> each item is replaced
  by its \<^verbatim>\<open>keyword\<close> field and the falsy results are dropped; that is what the \<^verbatim>\<open>data\<close> \<open>xs\<close>
  gives when every item is neither \<^verbatim>\<open>null\<close> nor \<^verbatim>\<open>undefined\<close> and has either a truthy
  \<^verbatim>\<open>Keyword\<close> equal to its \<^verbatim>\<open>keyword\<close>, or no truthy \<^verbatim>\<open>Keyword\<close> and a truthy \<^verbatim>\<open>keyword\<close>, or no
  truthy \<^verbatim>\<open>Keyword\<close> and is itself falsy. For responses: the object that holds \<open>xs\<close> under
  \<^verbatim>\<open>ranked_keywords\<close> (or \<^verbatim>\<open>suggested_keywords\<close>) gives what a response array gives whose
  first element is \<open>xs\<close>. The link normalizer gives the empty list on every \<^verbatim>\<open>data\<close> that is
  an array.
\<close>

theorem wrapper_round_trip:
  "(get_prop w ''ranked_keywords'' = JArr xs
      \<longrightarrow> normalize_ranked w = normalize_ranked (JArr xs))
   \<and> (get_prop w ''suggested_keywords'' = JArr xs \<and> (\<forall>ys. get_prop w ''related_keyword'' \<noteq> JArr ys)
      \<longrightarrow> normalize_suggested w = normalize_suggested (JArr xs))
   \<and> (get_prop w ''related_keyword'' = JArr xs
      \<longrightarrow> normalize_suggested w
          = (case map_exn (\<lambda>kw. getp kw ''keyword'') xs of
               Inl e \<Rightarrow> Inl e
             | Inr ks \<Rightarrow> Inr (JArr (filter truthy ks))))
   \<and> (get_prop w ''related_keyword'' = JArr xs
       \<and> list_all (\<lambda>kw. \<not> nullish kw
                         \<and> (if truthy (get_prop kw ''Keyword'')
                             then get_prop kw ''keyword'' = get_prop kw ''Keyword''
                             else truthy (get_prop kw ''keyword'') \<or> \<not> truthy kw)) xs
      \<longrightarrow> normalize_suggested w = normalize_suggested (JArr xs))
   \<and> (get_prop w ''ranked_keywords'' = JArr xs
      \<longrightarrow> process_response toUpperCase page_ranked_keywords w
          = process_response toUpperCase page_ranked_keywords (JArr (JArr xs # rest)))
   \<and> (get_prop w ''suggested_keywords'' = JArr xs \<and> (\<forall>ys. get_prop w ''related_keyword'' \<noteq> JArr ys)
      \<longrightarrow> process_response toUpperCase suggested_keywords w
          = process_response toUpperCase suggested_keywords (JArr (JArr xs # rest)))
   \<and> normalize_links toUpperCase (JArr xs) = Inr (JArr [])"
proof (intro conjI impI)
  show "normalize_links toUpperCase (JArr xs) = Inr (JArr [])"
    by (simp add: normalize_links_def opt_prop_def)
next
  assume a: "get_prop w ''ranked_keywords'' = JArr xs"
  with get_prop_array_obj [OF a] show r: "normalize_ranked w = normalize_ranked (JArr xs)"
    by (simp add: normalize_ranked_def opt_prop_def js_or_def)
  from first_element_object [OF a] r
  show "process_response toUpperCase page_ranked_keywords w
      = process_response toUpperCase page_ranked_keywords (JArr (JArr xs # rest))"
    by (simp add: process_response_def first_element_def)
next
  assume a: "get_prop w ''suggested_keywords'' = JArr xs
     \<and> (\<forall>ys. get_prop w ''related_keyword'' \<noteq> JArr ys)"
  then have n: "\<not> nullish w" using get_prop_array_obj by blast
  with a show r: "normalize_suggested w = normalize_suggested (JArr xs)"
    by (simp add: normalize_suggested_def opt_prop_def js_or_def split: jsval.splits)
  from a have "first_element w = w" using first_element_object by blast
  with r show "process_response toUpperCase suggested_keywords w
      = process_response toUpperCase suggested_keywords (JArr (JArr xs # rest))"
    by (simp add: process_response_def first_element_def)
next
  assume a: "get_prop w ''related_keyword'' = JArr xs"
  with get_prop_array_obj [OF a]
  show "normalize_suggested w
          = (case map_exn (\<lambda>kw. getp kw ''keyword'') xs of
               Inl e \<Rightarrow> Inl e
             | Inr ks \<Rightarrow> Inr (JArr (filter truthy ks)))"
    by (simp add: normalize_suggested_def)
next
  assume a: "get_prop w ''related_keyword'' = JArr xs
       \<and> list_all (\<lambda>kw. \<not> nullish kw
                         \<and> (if truthy (get_prop kw ''Keyword'')
                             then get_prop kw ''keyword'' = get_prop kw ''Keyword''
                             else truthy (get_prop kw ''keyword'') \<or> \<not> truthy kw)) xs"
  then have w: "truthy w" using get_prop_array_obj by blast
  have "normalize_suggested (JArr xs)
      = (case map_exn suggested_item xs of
          Inl e \<Rightarrow> Inl e | Inr ks \<Rightarrow> Inr (JArr (filter truthy ks)))"
    by (simp add: normalize_suggested_def opt_prop_def js_or_def)
  with a w map_exn_related [of xs] show "normalize_suggested w = normalize_suggested (JArr xs)"
    by (simp add: normalize_suggested_def)
qed

theorem wrapper_round_trip_witness:
  "normalize_ranked (JObj [(''ranked_keywords'', JArr [JObj [(''Keyword'', JStr ''seo'')]])])
     = normalize_ranked (JArr [JObj [(''Keyword'', JStr ''seo'')]])
   \<and> normalize_suggested (JObj [(''suggested_keywords'', JArr [JStr ''seo''])])
     = normalize_suggested (JArr [JStr ''seo''])
   \<and> normalize_suggested
        (JObj [(''related_keyword'',
                JArr [JObj [(''keyword'', JStr ''seo'')],
                      JObj [(''Keyword'', JStr ''ads''), (''keyword'', JStr ''ads'')]])])
     = normalize_suggested
        (JArr [JObj [(''keyword'', JStr ''seo'')],
               JObj [(''Keyword'', JStr ''ads''), (''keyword'', JStr ''ads'')]])
   \<and> normalize_suggested (JObj [(''related_keyword'', JArr [JObj [(''keyword'', JStr ''seo'')]])])
     = Inr (JArr [JStr ''seo''])
   \<and> process_response id page_ranked_keywords
        (JObj [(''ranked_keywords'', JArr [JObj [(''Keyword'', JStr ''seo'')]])])
     = process_response id page_ranked_keywords (JArr [JArr [JObj [(''Keyword'', JStr ''seo'')]]])
   \<and> process_response id suggested_keywords (JObj [(''suggested_keywords'', JArr [JStr ''seo''])])
     = process_response id suggested_keywords (JArr [JArr [JStr ''seo'']])"
proof -
  have a: "normalize_ranked (JObj [(''ranked_keywords'', JArr [JObj [(''Keyword'', JStr ''seo'')]])])
     = normalize_ranked (JArr [JObj [(''Keyword'', JStr ''seo'')]])"
    by (rule wrapper_round_trip [THEN conjunct1, THEN mp]) simp
  have b: "normalize_suggested (JObj [(''suggested_keywords'', JArr [JStr ''seo''])])
     = normalize_suggested (JArr [JStr ''seo''])"
    by (rule wrapper_round_trip [THEN conjunct2, THEN conjunct1, THEN mp]) simp
  have c: "normalize_suggested
        (JObj [(''related_keyword'',
                JArr [JObj [(''keyword'', JStr ''seo'')],
                      JObj [(''Keyword'', JStr ''ads''), (''keyword'', JStr ''ads'')]])])
     = normalize_suggested
        (JArr [JObj [(''keyword'', JStr ''seo'')],
               JObj [(''Keyword'', JStr ''ads''), (''keyword'', JStr ''ads'')]])"
    by (rule wrapper_round_trip
          [THEN conjunct2, THEN conjunct2, THEN conjunct2, THEN conjunct1, THEN mp]) simp
  have "normalize_suggested (JObj [(''related_keyword'', JArr [JObj [(''keyword'', JStr ''seo'')]])])
     = (case map_exn (\<lambda>kw. getp kw ''keyword'') [JObj [(''keyword'', JStr ''seo'')]] of
          Inl e \<Rightarrow> Inl e
        | Inr ks \<Rightarrow> Inr (JArr (filter truthy ks)))"
    by (rule wrapper_round_trip [THEN conjunct2, THEN conjunct2, THEN conjunct1, THEN mp]) simp
  then have d: "normalize_suggested (JObj [(''related_keyword'', JArr [JObj [(''keyword'', JStr ''seo'')]])])
     = Inr (JArr [JStr ''seo''])"
    by (simp add: getp_def)
  have e: "process_response id page_ranked_keywords
        (JObj [(''ranked_keywords'', JArr [JObj [(''Keyword'', JStr ''seo'')]])])
     = process_response id page_ranked_keywords (JArr [JArr [JObj [(''Keyword'', JStr ''seo'')]]])"
    by (rule wrapper_round_trip
          [THEN conjunct2, THEN conjunct2, THEN conjunct2, THEN conjunct2, THEN conjunct1,
           THEN mp]) simp
  have f: "process_response id suggested_keywords (JObj [(''suggested_keywords'', JArr [JStr ''seo''])])
     = process_response id suggested_keywords (JArr [JArr [JStr ''seo'']])"
    by (rule wrapper_round_trip
          [THEN conjunct2, THEN conjunct2, THEN conjunct2, THEN conjunct2, THEN conjunct2,
           THEN conjunct1, THEN mp]) simp
  from a b c d e f show ?thesis by (intro conjI)
qed

text \<open>
  Where the round trip does not hold. An array of keyword strings under
  \<^verbatim>\<open>related_keyword\<close> gives the empty list, and gives the strings when it is \<^verbatim>\<open>data\<close> itself.
  The link normalizer reads \<^verbatim>\<open>internal_links\<close> only and gives the empty list on an array.
  A response that is the bare, non-empty array of ranked keywords is cut to its first
  element and gives the empty list, while the same array under \<^verbatim>\<open>ranked_keywords\<close> gives one
  record.
\<close>

theorem related_keyword_not_round_trip:
  "normalize_suggested (JObj [(''related_keyword'', JArr [JStr ''seo''])]) = Inr (JArr [])
   \<and> normalize_suggested (JArr [JStr ''seo'']) = Inr (JArr [JStr ''seo''])
   \<and> normalize_links id (JObj [(''internal_links'', JArr [JObj [(''url'', JStr ''/a''), (''title'', JStr ''A'')]])])
       = Inr (JArr [JObj [(''url'', JStr ''/a''), (''title'', JStr ''A'')]])
   \<and> normalize_links id (JArr [JObj [(''url'', JStr ''/a''), (''title'', JStr ''A'')]]) = Inr (JArr [])
   \<and> process_response id page_ranked_keywords (JArr [JObj [(''keyword'', JStr ''seo'')]])
       = Inr (JArr [])
   \<and> process_response id page_ranked_keywords
        (JObj [(''ranked_keywords'', JArr [JObj [(''keyword'', JStr ''seo'')]])])
       = Inr (JArr [JObj
           [(''keyword'', JStr ''seo''), (''competition'', JNum 0),
            (''competition_level'', JStr ''UNKNOWN''), (''cpc'', JNum 0),
            (''search_volume'', JNum 0), (''difficulty'', JNum 0), (''intent'', JStr ''unknown'')]])"
  by (simp add: normalize_suggested_def normalize_links_def opt_prop_def js_or_def getp_def
      suggested_item_def url_map_item_def List.map_filter_def process_response_def
      first_element_def normalize_ranked_def ranked_keyword_def)

text \<open>
  C6. A ranked-keyword response whose collection holds \<^verbatim>\<open>null\<close> makes the normalization
  throw: the callback reads \<^verbatim>\<open>kw.Keyword\<close> without the test that the callback of \<^verbatim>\<open>url_map\<close>
  applies to its items.
\<close>

theorem ranked_keywords_null_item:
  "process_response toUpperCase page_ranked_keywords
      (JObj [(''ranked_keywords'', JArr [JObj [(''keyword'', JStr ''seo'')], JNull])])
     = Inl (TypeError (''Cannot read properties of null (reading '' @ quoted ''Keyword'' @ '')''))"
  by (simp add: process_response_def first_element_def normalize_ranked_def opt_prop_def js_or_def
      ranked_keyword_def cannot_read_def)

text \<open>
  C8. The response body \<^verbatim>\<open>[[null]]\<close> is valid JSON, and \<^verbatim>\<open>callWebhookTool\<close> rejects on it for
  \<^verbatim>\<open>page_ranked_keywords\<close> and for \<^verbatim>\<open>suggested_keywords\<close>: the item callbacks read a property
  of \<^verbatim>\<open>null\<close>. For \<^verbatim>\<open>url_map\<close>, a link whose \<^verbatim>\<open>url\<close> is the empty string passes the type
  test, leaves \<^verbatim>\<open>url\<close> undefined, and \<^verbatim>\<open>url.split\<close> throws.
\<close>

theorem valid_json_rejected:
  "callWebhookTool toUpperCase page_ranked_keywords
      (Inr \<lparr>ok = True, status = 200, body = ''[[null]]''\<rparr>) (Inr (JArr [JArr [JNull]]))
     = Inl (Error (''Failed to get data from custom tool: page_ranked_keywords. ''
                   @ ''Cannot read properties of null (reading '' @ quoted ''Keyword'' @ '')''))
   \<and> callWebhookTool toUpperCase suggested_keywords
      (Inr \<lparr>ok = True, status = 200, body = ''[[null]]''\<rparr>) (Inr (JArr [JArr [JNull]]))
     = Inl (Error (''Failed to get data from custom tool: suggested_keywords. ''
                   @ ''Cannot read properties of null (reading '' @ quoted ''Keyword'' @ '')''))
   \<and> process_response toUpperCase url_map (JObj [(''internal_links'', JArr [JObj [(''url'', JStr [])]])])
     = Inl (TypeError (''Cannot read properties of undefined (reading '' @ quoted ''split'' @ '')''))"
  by (simp add: callWebhookTool_def process_response_def first_element_def normalize_ranked_def
      normalize_suggested_def normalize_links_def opt_prop_def js_or_def ranked_keyword_def
      suggested_item_def url_map_item_def cannot_read_def)

text \<open>
  What the code does guarantee. An empty body gives an empty array for \<^verbatim>\<open>url_map\<close> and
  \<^verbatim>\<open>page_ranked_keywords\<close> and \<^verbatim>\<open>null\<close> for the other two functions. On an array without
  \<^verbatim>\<open>null\<close> items the ranked-keyword normalizer returns one record for each item; a field
  of the record is the source field when that is truthy and the default otherwise (the
  keyword is \<^verbatim>\<open>Keyword\<close> if truthy, else \<^verbatim>\<open>keyword\<close> if truthy, else the empty string).
\<close>

lemma callWebhookTool_empty_body:
  "ok r \<Longrightarrow> body r = [] \<Longrightarrow>
   callWebhookTool toUpperCase func (Inr r) parsed
     = Inr (if func = url_map \<or> func = page_ranked_keywords then JArr [] else JNull)"
  by (simp add: callWebhookTool_def)

lemma map_exn_ranked:
  "list_all (\<lambda>kw. \<not> nullish kw) xs \<Longrightarrow> \<exists>rs. map_exn ranked_keyword xs = Inr rs \<and> length rs = length xs"
  by (induction xs) (auto simp: ranked_keyword_def)

lemma normalize_ranked_array:
  "list_all (\<lambda>kw. \<not> nullish kw) xs
   \<Longrightarrow> \<exists>rs. normalize_ranked (JArr xs) = Inr (JArr rs) \<and> length rs = length xs"
  using map_exn_ranked [of xs]
  by (auto simp: normalize_ranked_def opt_prop_def js_or_def)

lemma ranked_keyword_defaults:
  "ranked_keyword (JObj []) = Inr (JObj
        [(''keyword'', JStr []), (''competition'', JNum 0),
         (''competition_level'', JStr ''UNKNOWN''), (''cpc'', JNum 0),
         (''search_volume'', JNum 0), (''difficulty'', JNum 0), (''intent'', JStr ''unknown'')])"
  by (simp add: ranked_keyword_def js_or_def)

lemma ranked_keyword_fields:
  assumes "\<not> nullish kw" and "ranked_keyword kw = Inr r"
  shows "get_prop r ''keyword''
           = (if truthy (get_prop kw ''Keyword'') then get_prop kw ''Keyword''
              else if truthy (get_prop kw ''keyword'') then get_prop kw ''keyword'' else JStr [])"
    and "get_prop r ''competition''
           = (if truthy (get_prop kw ''competition_score'') then get_prop kw ''competition_score''
              else JNum 0)"
    and "get_prop r ''competition_level''
           = (if truthy (get_prop kw ''competition_level'') then get_prop kw ''competition_level''
              else JStr ''UNKNOWN'')"
    and "get_prop r ''cpc'' = (if truthy (get_prop kw ''cpc'') then get_prop kw ''cpc'' else JNum 0)"
    and "get_prop r ''search_volume''
           = (if truthy (get_prop kw ''search_volume'') then get_prop kw ''search_volume''
              else JNum 0)"
    and "get_prop r ''difficulty''
           = (if truthy (get_prop kw ''keyword_difficulty'') then get_prop kw ''keyword_difficulty''
              else JNum 0)"
    and "get_prop r ''intent''
           = (if truthy (get_prop kw ''intent'') then get_prop kw ''intent'' else JStr ''unknown'')"
  using assms by (auto simp: ranked_keyword_def js_or_def)

section \<open>Properties of the keyword strategy\<close>

lemma lookup_all_spec:
  "lookup_all callWebhook xs s
     = (map (\<lambda>i. case fst (callWebhook (xs ! i)
                              (foldl (\<lambda>st seed. snd (callWebhook seed st)) s (take i xs))) of
                   Inl err \<Rightarrow> JArr [] | Inr v \<Rightarrow> v) [0..<length xs],
        foldl (\<lambda>st seed. snd (callWebhook seed st)) s xs)"
proof (induction xs arbitrary: s)
  case Nil
  show ?case by simp
next
  case (Cons x xs)
  obtain r s1 where c: "callWebhook x s = (r, s1)" by (cases "callWebhook x s")
  have u: "[0..<length (x # xs)] = 0 # map Suc [0..<length xs]"
    by (simp add: upt_conv_Cons map_Suc_upt del: upt_Suc)
  show ?case
    unfolding u by (simp add: c Cons.IH [of s1] comp_def)
qed

lemma gather_suggestions_spec:
  "gather_suggestions callWebhook seeds s
     = (flat (map (\<lambda>i. case fst (callWebhook (take 3 seeds ! i)
                              (foldl (\<lambda>st seed. snd (callWebhook seed st)) s
                                 (take i (take 3 seeds)))) of
                   Inl err \<Rightarrow> JArr [] | Inr v \<Rightarrow> v) [0..<length (take 3 seeds)]),
        foldl (\<lambda>st seed. snd (callWebhook seed st)) s (take 3 seeds))"
proof (cases "length seeds > 0")
  case True
  then show ?thesis
    unfolding gather_suggestions_def lookup_all_spec by simp
next
  case False
  then show ?thesis by (simp add: gather_suggestions_def)
qed

lemma rejected_results:
  "\<forall>seed st. isl (fst (callWebhook seed st))
   \<Longrightarrow> flat (map (\<lambda>i. case fst (callWebhook (f i) (g i)) of Inl err \<Rightarrow> JArr [] | Inr v \<Rightarrow> v) ns) = []"
proof (induction ns)
  case Nil
  show ?case by simp
next
  case (Cons n ns)
  from Cons.prems have "isl (fst (callWebhook (f n) (g n)))" by blast
  then obtain e where "fst (callWebhook (f n) (g n)) = Inl e"
    by (cases "fst (callWebhook (f n) (g n))") auto
  with Cons.IH [OF Cons.prems] show ?case by simp
qed

lemma attempt_answers:
  assumes "seedModel s = (Inr seedText, s0)"
    and "seeds_of JSON_parse topic seedText = JArr seeds"
    and "gather_suggestions callWebhook seeds s0 = (sg, s1)"
    and "selectModel seeds sg s1 = (Inr (Some ft), s2)"
    and "JSON_parse (extractJson ft) = Inr v"
  shows "generateKeywordStrategy JSON_parse topic seedModel callWebhook selectModel s
      = \<lparr>outcome = Inr v, delays = [], final = s2\<rparr>"
proof -
  have "keyword_strategy_attempt JSON_parse topic seedModel callWebhook selectModel s = (Inr v, s2)"
    using assms by (simp add: keyword_strategy_attempt_def)
  then show ?thesis
    by (simp add: generateKeywordStrategy_def withRetry_ok)
qed

lemma split_on_word:
  "d \<notin> set w \<Longrightarrow> split_on d (w @ d # r) = w # split_on d r"
  by (induction w) auto

lemma split_on_single: "d \<notin> set w \<Longrightarrow> split_on d w = [w]"
  by (induction w) auto

lemma fallback_seed_one_word: "CHR '' '' \<notin> set w \<Longrightarrow> fallback_seed w = w"
  by (simp add: fallback_seed_def split_on_single)

lemma fallback_seed_pair:
  assumes "CHR '' '' \<notin> set w1" and "CHR '' '' \<notin> set w2"
  shows "fallback_seed (w1 @ '' '' @ w2) = w1 @ '' '' @ w2"
proof -
  have "split_on (CHR '' '') (w1 @ CHR '' '' # w2) = [w1, w2]"
    using assms by (simp add: split_on_word split_on_single)
  then show ?thesis by (simp add: fallback_seed_def)
qed

lemma split_on_nonempty: "split_on d r \<noteq> []"
  by (induction r) (auto split: list.splits)

lemma fallback_seed_two_words:
  assumes "CHR '' '' \<notin> set w1" and "CHR '' '' \<notin> set w2"
  shows "fallback_seed (w1 @ '' '' @ w2 @ '' '' @ r) = w1 @ '' '' @ w2"
proof -
  have "split_on (CHR '' '') (w1 @ CHR '' '' # (w2 @ CHR '' '' # r))
      = w1 # w2 # split_on (CHR '' '') r"
    using assms by (simp add: split_on_word)
  then show ?thesis by (simp add: fallback_seed_def)
qed

lemma extractJson_bracketed:
  assumes "CHR 0x60 \<notin> set b"
  shows "extractJson ([CHR ''[''] @ b @ [CHR '']'']) = [CHR ''[''] @ b @ [CHR '']'']"
proof -
  have nf: "fence_match ([CHR ''[''] @ b @ [CHR '']'']) = None"
    by (rule fence_match_none [OF no_tick_no_fence]) (use assms in simp)
  have i: "[CHR ''[''] @ b @ [CHR '']''] = [] @ [CHR ''[''] @ b @ [CHR '']''] @ []" by simp
  show ?thesis
    by (rule extractJson_braces [OF nf i]) simp_all
qed

text \<open>
  C10. \<^verbatim>\<open>generateKeywordStrategy\<close> is started in state \<open>s\<close>; the seed call answers with a text
  and leaves the state \<open>s0\<close>. Let the seeds be the array the text parses to, \<open>queried\<close> its
  first three elements (all of them when there are fewer), \<open>after i\<close> the state left by
  calling the webhook on the first \<open>i\<close> of \<open>queried\<close>, in order, from \<open>s0\<close>, and \<open>result i\<close>
  what the \<open>i\<close>-th of these calls resolves with, or the empty array when it rejects.
  \<^enum> If the selection call, given the seeds and the flattened results, in the state after
    the last lookup, answers with a text that parses to \<open>v\<close>, then the operation returns
    \<open>v\<close> at its first attempt, with no delay, in the state the selection call left: the
    webhook is called on \<open>queried\<close> and on nothing else, a lookup that rejects
    contributes nothing, one that resolves contributes its value, and no rejection makes
    the operation fail.
  \<^enum> The same for four seeds or more, call by call: three lookups, the fourth seed and the
    later ones are not queried.
  \<^enum> When every lookup rejects, the selection call is given no suggestion and the
    operation returns what it answers.
  \<^enum> When the seed text is undefined or does not parse, the webhook is called once, on
    \<^verbatim>\<open>topic.split(' ').slice(0, 2).join(' ')\<close>, which is the only seed given to the
    selection call.
  \<^enum> That seed is the topic itself when it holds no space or one space, and the part
    before the second space otherwise.
\<close>

theorem keyword_strategy_fault_absorption:
  fixes callWebhook :: "jsval \<Rightarrow> 's \<Rightarrow> (jsval + jsval) \<times> 's"
    and seeds :: "jsval list" and s0 :: 's
  defines "queried \<equiv> take 3 seeds"
  defines "after \<equiv> \<lambda>i. foldl (\<lambda>st seed. snd (callWebhook seed st)) s0 (take i queried)"
  defines "result \<equiv> \<lambda>i. (case fst (callWebhook (queried ! i) (after i)) of
                            Inl err \<Rightarrow> JArr [] | Inr v \<Rightarrow> v)"
  shows
  "(seedModel s = (Inr (Some t), s0) \<and> JSON_parse (extractJson t) = Inr (JArr seeds)
     \<and> selectModel seeds (flat (map result [0..<length queried])) (after (length queried))
         = (Inr (Some ft), s2)
     \<and> JSON_parse (extractJson ft) = Inr v
    \<longrightarrow> generateKeywordStrategy JSON_parse topic seedModel callWebhook selectModel s
        = \<lparr>outcome = Inr v, delays = [], final = s2\<rparr>)
   \<and> (seedModel s = (Inr (Some t), s0) \<and> JSON_parse (extractJson t) = Inr (JArr seeds)
      \<and> seeds = q1 # q2 # q3 # rest
      \<and> callWebhook q1 s0 = (r1, t1) \<and> callWebhook q2 t1 = (r2, t2)
      \<and> callWebhook q3 t2 = (r3, t3)
      \<and> selectModel seeds
           (flat (map (\<lambda>r. case r of Inl err \<Rightarrow> JArr [] | Inr v \<Rightarrow> v) [r1, r2, r3])) t3
          = (Inr (Some ft), s2)
      \<and> JSON_parse (extractJson ft) = Inr v
    \<longrightarrow> generateKeywordStrategy JSON_parse topic seedModel callWebhook selectModel s
        = \<lparr>outcome = Inr v, delays = [], final = s2\<rparr>)
   \<and> (seedModel s = (Inr (Some t), s0) \<and> JSON_parse (extractJson t) = Inr (JArr seeds)
      \<and> (\<forall>seed st. isl (fst (callWebhook seed st)))
      \<and> selectModel seeds [] (after (length queried)) = (Inr (Some ft), s2)
      \<and> JSON_parse (extractJson ft) = Inr v
    \<longrightarrow> generateKeywordStrategy JSON_parse topic seedModel callWebhook selectModel s
        = \<lparr>outcome = Inr v, delays = [], final = s2\<rparr>)
   \<and> (seedModel s = (Inr seedText, s0)
      \<and> (seedText = None \<or> (\<exists>t e. seedText = Some t \<and> JSON_parse (extractJson t) = Inl e))
      \<and> callWebhook (JStr (fallback_seed topic)) s0 = (r1, t1)
      \<and> selectModel [JStr (fallback_seed topic)]
           (flat [case r1 of Inl err \<Rightarrow> JArr [] | Inr v \<Rightarrow> v]) t1
          = (Inr (Some ft), s2)
      \<and> JSON_parse (extractJson ft) = Inr v
    \<longrightarrow> generateKeywordStrategy JSON_parse topic seedModel callWebhook selectModel s
        = \<lparr>outcome = Inr v, delays = [], final = s2\<rparr>)
   \<and> (CHR '' '' \<notin> set w1 \<longrightarrow> fallback_seed w1 = w1)
   \<and> (CHR '' '' \<notin> set w1 \<and> CHR '' '' \<notin> set w2
      \<longrightarrow> fallback_seed (w1 @ '' '' @ w2) = w1 @ '' '' @ w2)
   \<and> (CHR '' '' \<notin> set w1 \<and> CHR '' '' \<notin> set w2
      \<longrightarrow> fallback_seed (w1 @ '' '' @ w2 @ '' '' @ w3) = w1 @ '' '' @ w2)"
proof (intro conjI impI)
  assume a: "seedModel s = (Inr (Some t), s0) \<and> JSON_parse (extractJson t) = Inr (JArr seeds)
     \<and> selectModel seeds (flat (map result [0..<length queried])) (after (length queried))
         = (Inr (Some ft), s2)
     \<and> JSON_parse (extractJson ft) = Inr v"
  then have 1: "seeds_of JSON_parse topic (Some t) = JArr seeds"
    by (simp add: seeds_of_def)
  have q: "take (length (take 3 seeds)) (take 3 seeds) = take 3 seeds"
    by (rule take_all) simp
  have 2: "gather_suggestions callWebhook seeds s0
      = (flat (map result [0..<length queried]), after (length queried))"
    unfolding gather_suggestions_spec result_def after_def queried_def q by (rule refl)
  show "generateKeywordStrategy JSON_parse topic seedModel callWebhook selectModel s
        = \<lparr>outcome = Inr v, delays = [], final = s2\<rparr>"
    by (rule attempt_answers [OF _ 1 2]) (use a in blast)+
next
  assume a: "seedModel s = (Inr (Some t), s0) \<and> JSON_parse (extractJson t) = Inr (JArr seeds)
      \<and> seeds = q1 # q2 # q3 # rest
      \<and> callWebhook q1 s0 = (r1, t1) \<and> callWebhook q2 t1 = (r2, t2)
      \<and> callWebhook q3 t2 = (r3, t3)
      \<and> selectModel seeds
           (flat (map (\<lambda>r. case r of Inl err \<Rightarrow> JArr [] | Inr v \<Rightarrow> v) [r1, r2, r3])) t3
          = (Inr (Some ft), s2)
      \<and> JSON_parse (extractJson ft) = Inr v"
  then have 1: "seeds_of JSON_parse topic (Some t) = JArr seeds"
    by (simp add: seeds_of_def)
  from a have 2: "gather_suggestions callWebhook seeds s0
      = (flat (map (\<lambda>r. case r of Inl err \<Rightarrow> JArr [] | Inr v \<Rightarrow> v) [r1, r2, r3]), t3)"
    by (simp add: gather_suggestions_def)
  show "generateKeywordStrategy JSON_parse topic seedModel callWebhook selectModel s
        = \<lparr>outcome = Inr v, delays = [], final = s2\<rparr>"
    by (rule attempt_answers [OF _ 1 2]) (use a in blast)+
next
  assume a: "seedModel s = (Inr (Some t), s0) \<and> JSON_parse (extractJson t) = Inr (JArr seeds)
      \<and> (\<forall>seed st. isl (fst (callWebhook seed st)))
      \<and> selectModel seeds [] (after (length queried)) = (Inr (Some ft), s2)
      \<and> JSON_parse (extractJson ft) = Inr v"
  then have 1: "seeds_of JSON_parse topic (Some t) = JArr seeds"
    by (simp add: seeds_of_def)
  from a have r: "\<forall>seed st. isl (fst (callWebhook seed st))" by blast
  have q: "take (length (take 3 seeds)) (take 3 seeds) = take 3 seeds"
    by (rule take_all) simp
  have 2: "gather_suggestions callWebhook seeds s0 = ([], after (length queried))"
    unfolding gather_suggestions_spec rejected_results [OF r] after_def queried_def q
    by (rule refl)
  show "generateKeywordStrategy JSON_parse topic seedModel callWebhook selectModel s
        = \<lparr>outcome = Inr v, delays = [], final = s2\<rparr>"
    by (rule attempt_answers [OF _ 1 2]) (use a in blast)+
next
  assume a: "seedModel s = (Inr seedText, s0)
      \<and> (seedText = None \<or> (\<exists>t e. seedText = Some t \<and> JSON_parse (extractJson t) = Inl e))
      \<and> callWebhook (JStr (fallback_seed topic)) s0 = (r1, t1)
      \<and> selectModel [JStr (fallback_seed topic)]
           (flat [case r1 of Inl err \<Rightarrow> JArr [] | Inr v \<Rightarrow> v]) t1
          = (Inr (Some ft), s2)
      \<and> JSON_parse (extractJson ft) = Inr v"
  then have 1: "seeds_of JSON_parse topic seedText = JArr [JStr (fallback_seed topic)]"
    by (auto simp: seeds_of_def)
  from a have 2: "gather_suggestions callWebhook [JStr (fallback_seed topic)] s0
      = (flat [case r1 of Inl err \<Rightarrow> JArr [] | Inr v \<Rightarrow> v], t1)"
    by (simp add: gather_suggestions_def)
  show "generateKeywordStrategy JSON_parse topic seedModel callWebhook selectModel s
        = \<lparr>outcome = Inr v, delays = [], final = s2\<rparr>"
    by (rule attempt_answers [OF _ 1 2]) (use a in blast)+
next
  assume "CHR '' '' \<notin> set w1"
  then show "fallback_seed w1 = w1" by (rule fallback_seed_one_word)
next
  assume "CHR '' '' \<notin> set w1 \<and> CHR '' '' \<notin> set w2"
  then show "fallback_seed (w1 @ '' '' @ w2) = w1 @ '' '' @ w2"
    using fallback_seed_pair [of w1 w2] by blast
next
  assume "CHR '' '' \<notin> set w1 \<and> CHR '' '' \<notin> set w2"
  then show "fallback_seed (w1 @ '' '' @ w2 @ '' '' @ w3) = w1 @ '' '' @ w2"
    using fallback_seed_two_words [of w1 w2 w3] by blast
qed

theorem keyword_strategy_fault_absorption_witness:
  "generateKeywordStrategy parse_test ''seo'' (seed_answer four_seeds_text) webhook_flaky
      select_recording ([], None)
     = \<lparr>outcome = Inr (JArr [JNum 1]), delays = [],
        final = ([JStr ''seo'', JStr ''content'', JStr ''links''],
                 Some [JStr ''seo'', JStr ''links''])\<rparr>
   \<and> generateKeywordStrategy parse_test ''seo'' (seed_answer four_seeds_text) webhook_flaky
      select_recording ([JStr ''earlier''], None)
     = \<lparr>outcome = Inr (JArr [JNum 1]), delays = [],
        final = ([JStr ''earlier'', JStr ''seo'', JStr ''content'', JStr ''links''],
                 Some [JStr ''seo'', JStr ''links''])\<rparr>
   \<and> generateKeywordStrategy parse_test ''seo'' (seed_answer four_seeds_text) webhook_down
      select_recording ([], None)
     = \<lparr>outcome = Inr (JArr [JNum 1]), delays = [],
        final = ([JStr ''seo'', JStr ''content'', JStr ''links''], Some [])\<rparr>
   \<and> generateKeywordStrategy parse_test ''content marketing strategy guide''
      (seed_answer ''Sure, here you go'') webhook_flaky select_recording ([], None)
     = \<lparr>outcome = Inr (JArr [JNum 1]), delays = [],
        final = ([JStr ''content marketing''], Some [JStr ''content marketing''])\<rparr>
   \<and> fallback_seed ''seo'' = ''seo''
   \<and> fallback_seed ''seo tips'' = ''seo tips''"
proof -
  have "extractJson ([CHR ''[''] @ ([CHR 0x22] @ ''seo'' @ [CHR 0x22] @ '','' @ [CHR 0x22]
          @ ''content'' @ [CHR 0x22] @ '','' @ [CHR 0x22] @ ''links'' @ [CHR 0x22] @ '',''
          @ [CHR 0x22] @ ''ads'' @ [CHR 0x22]) @ [CHR '']''])
      = [CHR ''[''] @ ([CHR 0x22] @ ''seo'' @ [CHR 0x22] @ '','' @ [CHR 0x22]
          @ ''content'' @ [CHR 0x22] @ '','' @ [CHR 0x22] @ ''links'' @ [CHR 0x22] @ '',''
          @ [CHR 0x22] @ ''ads'' @ [CHR 0x22]) @ [CHR '']'']"
    by (rule extractJson_bracketed) simp
  then have e1: "extractJson four_seeds_text = four_seeds_text"
    by (simp add: four_seeds_text_def)
  have "extractJson ([CHR ''[''] @ ''1'' @ [CHR '']'']) = [CHR ''[''] @ ''1'' @ [CHR '']'']"
    by (rule extractJson_bracketed) simp
  then have e2: "extractJson ''[1]'' = ''[1]''" by simp
  have "fence_match ''Sure, here you go'' = None"
    by (rule fence_match_none [OF no_tick_no_fence]) simp
  then have "extractJson ''Sure, here you go'' = trim ''Sure, here you go''"
    by (rule extractJson_plain) (simp add: is_open_def)
  then have e3: "extractJson ''Sure, here you go'' = ''Sure, here you go''"
    by (simp add: trim_def is_space_def)
  have p1: "parse_test four_seeds_text = Inr (JArr four_seeds)"
    by (simp add: parse_test_def)
  have p2: "parse_test ''[1]'' = Inr (JArr [JNum 1])"
    by (simp add: parse_test_def four_seeds_text_def)
  have p3: "parse_test ''Sure, here you go'' = Inl (SyntaxError ''Unexpected token'')"
    by (simp add: parse_test_def four_seeds_text_def)
  have a: "generateKeywordStrategy parse_test ''seo'' (seed_answer four_seeds_text) webhook_flaky
      select_recording ([], None)
     = \<lparr>outcome = Inr (JArr [JNum 1]), delays = [],
        final = ([JStr ''seo'', JStr ''content'', JStr ''links''],
                 Some [JStr ''seo'', JStr ''links''])\<rparr>"
    by (rule keyword_strategy_fault_absorption
          [where t = four_seeds_text and ?s0.0 = "([], None)" and seeds = four_seeds
             and ft = "''[1]''", THEN conjunct1, THEN mp])
      (simp add: e1 e2 p1 p2 seed_answer_def four_seeds_def webhook_flaky_def
         select_recording_def)
  have b: "generateKeywordStrategy parse_test ''seo'' (seed_answer four_seeds_text) webhook_flaky
      select_recording ([JStr ''earlier''], None)
     = \<lparr>outcome = Inr (JArr [JNum 1]), delays = [],
        final = ([JStr ''earlier'', JStr ''seo'', JStr ''content'', JStr ''links''],
                 Some [JStr ''seo'', JStr ''links''])\<rparr>"
    by (rule keyword_strategy_fault_absorption
          [where t = four_seeds_text and ?s0.0 = "([JStr ''earlier''], None)"
             and seeds = four_seeds and ft = "''[1]''"
             and ?q1.0 = "JStr ''seo''" and ?q2.0 = "JStr ''content''"
             and ?q3.0 = "JStr ''links''" and rest = "[JStr ''ads'']"
             and ?r1.0 = "Inr (JArr [JStr ''seo''])"
             and ?t1.0 = "([JStr ''earlier'', JStr ''seo''], None)"
             and ?r2.0 = "Inl (exn_val (Error ''Failed to get data from custom tool''))"
             and ?t2.0 = "([JStr ''earlier'', JStr ''seo'', JStr ''content''], None)"
             and ?r3.0 = "Inr (JArr [JStr ''links''])"
             and ?t3.0 = "([JStr ''earlier'', JStr ''seo'', JStr ''content'', JStr ''links''], None)",
           THEN conjunct2, THEN conjunct1, THEN mp])
      (simp add: e1 e2 p1 p2 seed_answer_def four_seeds_def webhook_flaky_def
         select_recording_def)
  have c: "generateKeywordStrategy parse_test ''seo'' (seed_answer four_seeds_text) webhook_down
      select_recording ([], None)
     = \<lparr>outcome = Inr (JArr [JNum 1]), delays = [],
        final = ([JStr ''seo'', JStr ''content'', JStr ''links''], Some [])\<rparr>"
    by (rule keyword_strategy_fault_absorption
          [where t = four_seeds_text and ?s0.0 = "([], None)" and seeds = four_seeds
             and ft = "''[1]''",
           THEN conjunct2, THEN conjunct2, THEN conjunct1, THEN mp])
      (simp add: e1 e2 p1 p2 seed_answer_def four_seeds_def webhook_down_def
         select_recording_def)
  have "fallback_seed (''content'' @ '' '' @ ''marketing'' @ '' '' @ ''strategy guide'')
      = ''content'' @ '' '' @ ''marketing''"
    by (rule keyword_strategy_fault_absorption
          [THEN conjunct2, THEN conjunct2, THEN conjunct2, THEN conjunct2, THEN conjunct2,
           THEN conjunct2, THEN mp])
      simp
  then have fs: "fallback_seed ''content marketing strategy guide'' = ''content marketing''"
    by simp
  have d: "generateKeywordStrategy parse_test ''content marketing strategy guide''
      (seed_answer ''Sure, here you go'') webhook_flaky select_recording ([], None)
     = \<lparr>outcome = Inr (JArr [JNum 1]), delays = [],
        final = ([JStr ''content marketing''], Some [JStr ''content marketing''])\<rparr>"
    by (rule keyword_strategy_fault_absorption
          [where seedText = "Some ''Sure, here you go''" and ?s0.0 = "([], None)"
             and ft = "''[1]''" and ?r1.0 = "Inr (JArr [JStr ''content marketing''])"
             and ?t1.0 = "([JStr ''content marketing''], None)",
           THEN conjunct2, THEN conjunct2, THEN conjunct2, THEN conjunct1, THEN mp])
      (simp add: e2 e3 p2 p3 fs seed_answer_def webhook_flaky_def select_recording_def)
  have e: "fallback_seed ''seo'' = ''seo''"
    by (rule keyword_strategy_fault_absorption
          [THEN conjunct2, THEN conjunct2, THEN conjunct2, THEN conjunct2, THEN conjunct1,
           THEN mp])
      simp
  have "fallback_seed (''seo'' @ '' '' @ ''tips'') = ''seo'' @ '' '' @ ''tips''"
    by (rule keyword_strategy_fault_absorption
          [THEN conjunct2, THEN conjunct2, THEN conjunct2, THEN conjunct2, THEN conjunct2,
           THEN conjunct1, THEN mp])
      simp
  then have f: "fallback_seed ''seo tips'' = ''seo tips''" by simp
  from a b c d e f show ?thesis by (intro conjI)
qed

end
